theory Spec2Isabelle
  imports Main "HOL-Library.Sublist"
begin

section \<open>Strings and formatted output\<close>

text \<open>
  C strings are modelled as \<open>string\<close> (the bytes before the terminating NUL).
  The conversions \<open>%u\<close> and \<open>%ld\<close> of \<open>printf\<close> print a number in decimal.
\<close>

definition newline :: string where
  "newline = [CHR 0x0A]"

definition digit_char :: "nat \<Rightarrow> char" where
  "digit_char d = ''0123456789'' ! d"

function show_nat :: "nat \<Rightarrow> string" where
  "show_nat n = (if n < 10 then [digit_char n] else show_nat (n div 10) @ [digit_char (n mod 10)])"
  by pat_completeness auto
termination
  by (relation "measure (\<lambda>n. n)") auto

declare show_nat.simps [simp del]

definition show_int :: "int \<Rightarrow> string" where
  "show_int i = (if i < 0 then ''-'' @ show_nat (nat (- i)) else show_nat (nat i))"

section \<open>Name cleaning\<close>

text \<open>
  \<open>str_has_prefix\<close> walks both strings while the prefix has characters left; it fails
  when the string ends first or the characters differ.
\<close>

fun str_has_prefix :: "string \<Rightarrow> string \<Rightarrow> bool" where
  "str_has_prefix str [] = True"
| "str_has_prefix [] (c # pre) = False"
| "str_has_prefix (s # str) (c # pre) = (if s = c then str_has_prefix str pre else False)"

definition prefixes :: "string list" where
  "prefixes = [''struct '', ''enum '', ''const '']"

text \<open>
  The \<open>for\<close> loop finds the first candidate that is a prefix of \<open>c_name\<close>; the
  \<open>goto start_over\<close> restarts the scan on the shortened string. When no candidate
  matches the loop falls through and \<open>c_name\<close> is returned.
\<close>

function strip_loop :: "string \<Rightarrow> string" where
  "strip_loop c_name =
     (case find (str_has_prefix c_name) prefixes of
        None \<Rightarrow> c_name
      | Some pre \<Rightarrow> strip_loop (drop (length pre) c_name))"
  by pat_completeness auto
termination
proof (relation "measure length")
  show "wf (measure (length :: string \<Rightarrow> nat))" by simp
next
  fix c_name pre :: string
  assume f: "find (str_has_prefix c_name) prefixes = Some pre"
  have len: "str_has_prefix s q \<Longrightarrow> length q \<le> length s" for s q
    by (induction s q rule: str_has_prefix.induct) (auto split: if_splits)
  from f have "pre \<in> set prefixes" and "str_has_prefix c_name pre"
    by (auto simp: find_Some_iff)
  then have "0 < length pre" and "length pre \<le> length c_name"
    using len by (auto simp: prefixes_def)
  then have "length c_name - length pre < length c_name"
    by arith
  then show "(drop (length pre) c_name, c_name) \<in> measure length"
    by simp
qed

declare strip_loop.simps [simp del]


section \<open>The data supplied by libclang\<close>

text \<open>
  The type kinds are those the \<open>switch\<close> of \<open>to_zig_type\<close> enumerates.
\<close>

datatype CXTypeKind =
    CXType_Invalid | CXType_Unexposed | CXType_Void | CXType_Bool
  | CXType_Char_U | CXType_UChar | CXType_Char16 | CXType_Char32
  | CXType_UShort | CXType_UInt | CXType_ULong | CXType_ULongLong | CXType_UInt128
  | CXType_Char_S | CXType_SChar | CXType_WChar
  | CXType_Short | CXType_Int | CXType_Long | CXType_LongLong | CXType_Int128
  | CXType_Float | CXType_Double | CXType_LongDouble
  | CXType_NullPtr | CXType_Overload | CXType_Dependent
  | CXType_ObjCId | CXType_ObjCClass | CXType_ObjCSel | CXType_Complex
  | CXType_Pointer | CXType_BlockPointer | CXType_LValueReference | CXType_RValueReference
  | CXType_Record | CXType_Enum | CXType_Typedef
  | CXType_ObjCInterface | CXType_ObjCObjectPointer
  | CXType_FunctionNoProto | CXType_FunctionProto
  | CXType_ConstantArray | CXType_Vector | CXType_IncompleteArray
  | CXType_VariableArray | CXType_DependentSizedArray | CXType_MemberPointer

text \<open>
  A \<open>CXType\<close> is opaque to the program: it reads the \<open>kind\<close> field and asks libclang
  for everything else. The model stores the answer of each query the program makes in
  the type value itself, so a type is a finite tree. \<open>InvalidType\<close> is the invalid type
  libclang answers with when a query does not apply.
  \<open>clang_getTypedefDeclUnderlyingType\<close> stands for the two calls
  \<open>clang_getTypedefDeclUnderlyingType (clang_getTypeDeclaration t)\<close>.
\<close>

datatype CXType =
    InvalidType
  | CXType
      (kind: CXTypeKind)
      (clang_isConstQualifiedType: bool)
      (clang_getTypeSpelling: string)
      (clang_getArraySize: int)
      (clang_getCanonicalType: CXType)
      (clang_getPointeeType: CXType)
      (clang_getArrayElementType: CXType)
      (clang_getTypedefDeclUnderlyingType: CXType)
where
  "kind InvalidType = CXType_Invalid"
| "clang_isConstQualifiedType InvalidType = False"
| "clang_getTypeSpelling InvalidType = []"
| "clang_getArraySize InvalidType = - 1"
| "clang_getCanonicalType InvalidType = InvalidType"
| "clang_getPointeeType InvalidType = InvalidType"
| "clang_getArrayElementType InvalidType = InvalidType"
| "clang_getTypedefDeclUnderlyingType InvalidType = InvalidType"

record CXSourceLocation =
  file_name :: string
  line :: nat
  column :: nat

record CXSourceRange =
  range_start :: CXSourceLocation
  range_end :: CXSourceLocation

definition clang_getRangeStart :: "CXSourceRange \<Rightarrow> CXSourceLocation" where
  "clang_getRangeStart r = range_start r"

section \<open>The translator's own data\<close>

text \<open>
  \<open>struct Arg\<close> and \<open>struct Fn\<close> both have a field \<open>name\<close>; the fields are
  \<open>arg_name\<close>, \<open>arg_type\<close> and \<open>fn_name\<close> here. The array \<open>args\<close> and its length
  \<open>arg_count\<close> are one list.

  \<open>allocate\<close> hands out zeroed memory, and a zeroed \<open>Buf\<close> holds no string, not
  even an empty one: its list has no element and its pointer is null. The name of an
  argument stays that way until a parameter declaration sets it, so it is a
  \<open>string option\<close>, \<open>None\<close> for the zeroed \<open>Buf\<close>. The other strings of a function
  record are set while the visitor builds it (lines 289, 291, 298), before anything
  reads them; they are the string they hold.
\<close>

record Arg =
  arg_name :: "string option"
  arg_type :: string

record Fn =
  fn_name :: string
  return_type :: string
  args :: "Arg list"

definition arg_count :: "Fn \<Rightarrow> nat" where
  "arg_count fn = length (args fn)"

text \<open>
  The sink \<open>f\<close> is not part of the state: the emitter yields the text it writes
  there. The field \<open>range\<close> is \<open>src_range\<close>.
\<close>

record ParseH =
  fn_list :: "Fn list"
  cur_fn :: "Fn option"
  arg_index :: nat
  cur_indent :: nat
  src_range :: CXSourceRange
  location :: CXSourceLocation

definition indent_size :: nat where
  "indent_size = 4"

section \<open>Failures and diagnostics\<close>

text \<open>
  \<open>zig_panic\<close>, \<open>zig_unreachable\<close> and a failed \<open>assert\<close> end the process. A
  computation yields the text it wrote together with its result or the failure that
  ended it; the classifier and the collector write to the error stream. The message
  of a panic is kept in the failure; what the process prints while it ends is not
  part of the text. \<open>AssertionFailed\<close> is a failed \<open>assert\<close> of this file,
  \<open>UninitializedBuf\<close> the end of a run in \<open>buf_ptr\<close>.
\<close>

datatype error = Panic string | Unreachable | AssertionFailed | UninitializedBuf

type_synonym 'a outcome = "string \<times> (error + 'a)"

definition ok :: "'a \<Rightarrow> 'a outcome" where
  "ok x = ([], Inr x)"

definition zig_panic :: "string \<Rightarrow> 'a outcome" where
  "zig_panic msg = ([], Inl (Panic msg))"

definition zig_unreachable :: "'a outcome" where
  "zig_unreachable = ([], Inl Unreachable)"

definition after :: "string \<Rightarrow> 'a outcome \<Rightarrow> 'a outcome" where
  "after w m = (w @ fst m, snd m)"

definition bind :: "'a outcome \<Rightarrow> ('a \<Rightarrow> 'b outcome) \<Rightarrow> 'b outcome" where
  "bind m k = (case snd m of Inl e \<Rightarrow> (fst m, Inl e) | Inr x \<Rightarrow> after (fst m) (k x))"

definition print_location :: "ParseH \<Rightarrow> string" where
  "print_location p =
     file_name (location p) @ '' line '' @ show_nat (line (location p))
       @ '', column '' @ show_nat (column (location p)) @ newline"


section \<open>The type classifier\<close>

text \<open>
  \<open>todo\<close> is \<open>print_location\<close> followed by \<open>zig_panic\<close>, as the branches of the
  unsupported kinds are written. The size of a constant array is an \<open>int\<close>: the
  cast from \<open>long long\<close> to \<open>long\<close> changes no value where both have 64 bits.
\<close>

definition prefixes_stripped :: "CXType \<Rightarrow> string" where
  "prefixes_stripped type = strip_loop (clang_getTypeSpelling type)"

definition todo :: "ParseH \<Rightarrow> string \<Rightarrow> 'a outcome" where
  "todo p msg = after (print_location p) (zig_panic msg)"

function to_zig_type :: "ParseH \<Rightarrow> CXType \<Rightarrow> string outcome" where
  "to_zig_type p raw_type =
    (if kind raw_type = CXType_Unexposed then
       (let canonical = clang_getCanonicalType raw_type in
        if kind canonical \<noteq> CXType_Unexposed then to_zig_type p canonical
        else zig_panic ''clang C api insufficient'')
     else
      (case kind raw_type of
        CXType_Invalid \<Rightarrow> zig_unreachable
      | CXType_Unexposed \<Rightarrow> zig_unreachable
      | CXType_Void \<Rightarrow> ok ''void''
      | CXType_Bool \<Rightarrow> ok ''bool''
      | CXType_SChar \<Rightarrow> ok ''i8''
      | CXType_Char_U \<Rightarrow> ok ''u8''
      | CXType_Char_S \<Rightarrow> ok ''u8''
      | CXType_UChar \<Rightarrow> ok ''u8''
      | CXType_WChar \<Rightarrow> todo p ''TODO wchar''
      | CXType_Char16 \<Rightarrow> todo p ''TODO char16''
      | CXType_Char32 \<Rightarrow> todo p ''TODO char32''
      | CXType_UShort \<Rightarrow> ok ''c_ushort''
      | CXType_UInt \<Rightarrow> ok ''c_uint''
      | CXType_ULong \<Rightarrow> ok ''c_ulong''
      | CXType_ULongLong \<Rightarrow> ok ''c_ulonglong''
      | CXType_UInt128 \<Rightarrow> todo p ''TODO uint128''
      | CXType_Short \<Rightarrow> ok ''c_short''
      | CXType_Int \<Rightarrow> ok ''c_int''
      | CXType_Long \<Rightarrow> ok ''c_long''
      | CXType_LongLong \<Rightarrow> ok ''c_longlong''
      | CXType_Int128 \<Rightarrow> todo p ''TODO int128''
      | CXType_Float \<Rightarrow> ok ''f32''
      | CXType_Double \<Rightarrow> ok ''f64''
      | CXType_LongDouble \<Rightarrow> ok ''f128''
      | CXType_IncompleteArray \<Rightarrow>
          (let pointee_type = clang_getArrayElementType raw_type in
           bind (to_zig_type p pointee_type) (\<lambda>pointee_buf.
             if clang_isConstQualifiedType pointee_type
             then ok (''*const '' @ pointee_buf)
             else ok (''*mut '' @ pointee_buf)))
      | CXType_Pointer \<Rightarrow>
          (let pointee_type = clang_getPointeeType raw_type in
           bind (to_zig_type p pointee_type) (\<lambda>pointee_buf.
             if clang_isConstQualifiedType pointee_type
             then ok (''*const '' @ pointee_buf)
             else ok (''*mut '' @ pointee_buf)))
      | CXType_Record \<Rightarrow> ok (prefixes_stripped raw_type)
      | CXType_Enum \<Rightarrow> ok (prefixes_stripped raw_type)
      | CXType_Typedef \<Rightarrow>
          (let name = prefixes_stripped raw_type in
           if name = ''int8_t'' then ok ''i8''
           else if name = ''uint8_t'' then ok ''u8''
           else if name = ''uint16_t'' then ok ''u16''
           else if name = ''uint32_t'' then ok ''u32''
           else if name = ''uint64_t'' then ok ''u64''
           else if name = ''int16_t'' then ok ''i16''
           else if name = ''int32_t'' then ok ''i32''
           else if name = ''int64_t'' then ok ''i64''
           else
             (let underlying_type = clang_getTypedefDeclUnderlyingType raw_type in
              to_zig_type p underlying_type))
      | CXType_ConstantArray \<Rightarrow>
          (let child_type = clang_getArrayElementType raw_type in
           bind (to_zig_type p child_type) (\<lambda>zig_child_type.
             let size = clang_getArraySize raw_type in
             ok (''['' @ zig_child_type @ ''; '' @ show_int size @ '']'')))
      | CXType_FunctionProto \<Rightarrow>
          after (''warning: TODO function proto'' @ newline)
            (after (print_location p) (ok ''*const u8''))
      | CXType_FunctionNoProto \<Rightarrow> todo p ''TODO function no proto''
      | CXType_BlockPointer \<Rightarrow> todo p ''TODO block pointer''
      | CXType_Vector \<Rightarrow> todo p ''TODO vector''
      | CXType_LValueReference \<Rightarrow> todo p ''TODO''
      | CXType_RValueReference \<Rightarrow> todo p ''TODO''
      | CXType_VariableArray \<Rightarrow> todo p ''TODO''
      | CXType_DependentSizedArray \<Rightarrow> todo p ''TODO''
      | CXType_MemberPointer \<Rightarrow> todo p ''TODO''
      | CXType_ObjCInterface \<Rightarrow> todo p ''TODO''
      | CXType_ObjCObjectPointer \<Rightarrow> todo p ''TODO''
      | CXType_NullPtr \<Rightarrow> todo p ''TODO''
      | CXType_Overload \<Rightarrow> todo p ''TODO''
      | CXType_Dependent \<Rightarrow> todo p ''TODO''
      | CXType_ObjCId \<Rightarrow> todo p ''TODO''
      | CXType_ObjCClass \<Rightarrow> todo p ''TODO''
      | CXType_ObjCSel \<Rightarrow> todo p ''TODO''
      | CXType_Complex \<Rightarrow> todo p ''TODO''))"
  by pat_completeness auto
termination
proof (relation "measure (\<lambda>(p, t). size t)")
  show "wf (measure (\<lambda>(p :: ParseH, t :: CXType). size t))" by simp
next
  fix p :: ParseH and raw_type x :: CXType
  assume "kind raw_type = CXType_Unexposed" and "x = clang_getCanonicalType raw_type"
  then show "((p, x), (p, raw_type)) \<in> measure (\<lambda>(p, t). size t)"
    by (cases raw_type) auto
next
  fix p :: ParseH and raw_type x :: CXType and k :: CXTypeKind
  assume "kind raw_type = CXType_IncompleteArray" and "x = clang_getArrayElementType raw_type"
  then show "((p, x), (p, raw_type)) \<in> measure (\<lambda>(p, t). size t)"
    by (cases raw_type) auto
next
  fix p :: ParseH and raw_type x :: CXType
  assume "kind raw_type = CXType_Pointer" and "x = clang_getPointeeType raw_type"
  then show "((p, x), (p, raw_type)) \<in> measure (\<lambda>(p, t). size t)"
    by (cases raw_type) auto
next
  fix p :: ParseH and raw_type xa :: CXType
  assume "kind raw_type = CXType_Typedef" and "xa = clang_getTypedefDeclUnderlyingType raw_type"
  then show "((p, xa), (p, raw_type)) \<in> measure (\<lambda>(p, t). size t)"
    by (cases raw_type) auto
next
  fix p :: ParseH and raw_type x :: CXType
  assume "kind raw_type = CXType_ConstantArray" and "x = clang_getArrayElementType raw_type"
  then show "((p, x), (p, raw_type)) \<in> measure (\<lambda>(p, t). size t)"
    by (cases raw_type) auto
qed

declare to_zig_type.simps [simp del]


section \<open>The declaration collector\<close>

datatype CX_StorageClass =
    CX_SC_Invalid | CX_SC_None | CX_SC_Extern | CX_SC_Static | CX_SC_PrivateExtern
  | CX_SC_OpenCLWorkGroupLocal | CX_SC_Auto | CX_SC_Register

text \<open>
  Of the cursor kinds and the calling conventions the program names only a few; every
  other one is kept with its numeric code.
\<close>

datatype CXCursorKind =
    CXCursor_FunctionDecl | CXCursor_ParmDecl | CXCursor_UnexposedAttr
  | CXCursor_CompoundStmt | CXCursor_FieldDecl | CXCursor_TypedefDecl
  | CXCursor_Other nat

datatype CXCallingConv = CXCallingConv_C | CXCallingConv_Other nat

datatype CXChildVisitResult = CXChildVisit_Break | CXChildVisit_Continue | CXChildVisit_Recurse

text \<open>
  What libclang answers about the type of a function declaration. The parameter types
  are a list: \<open>clang_getNumArgTypes\<close> is its length and \<open>clang_getArgType\<close> reads it,
  so the function types covered are the ones with a parameter list.
\<close>

record CXFunctionType =
  clang_isFunctionTypeVariadic :: bool
  clang_getFunctionTypeCallingConv :: CXCallingConv
  clang_getResultType :: CXType
  arg_types :: "CXType list"

definition clang_getNumArgTypes :: "CXFunctionType \<Rightarrow> nat" where
  "clang_getNumArgTypes fn_type = length (arg_types fn_type)"

definition clang_getArgType :: "CXFunctionType \<Rightarrow> nat \<Rightarrow> CXType" where
  "clang_getArgType fn_type i = (if i < length (arg_types fn_type) then arg_types fn_type ! i else InvalidType)"

record CXCursor =
  clang_getCursorKind :: CXCursorKind
  clang_getCursorSpelling :: string
  clang_Cursor_getStorageClass :: CX_StorageClass
  clang_getCursorType :: CXFunctionType
  clang_getCursorExtent :: CXSourceRange

definition assert :: "bool \<Rightarrow> unit outcome" where
  "assert b = (if b then ok () else ([], Inl AssertionFailed))"

definition is_storage_class_export :: "CX_StorageClass \<Rightarrow> bool outcome" where
  "is_storage_class_export storage_class =
     (case storage_class of
        CX_SC_Invalid \<Rightarrow> zig_unreachable
      | CX_SC_None \<Rightarrow> ok True
      | CX_SC_Extern \<Rightarrow> ok True
      | CX_SC_Auto \<Rightarrow> ok True
      | CX_SC_Static \<Rightarrow> ok False
      | CX_SC_PrivateExtern \<Rightarrow> ok False
      | CX_SC_OpenCLWorkGroupLocal \<Rightarrow> ok False
      | CX_SC_Register \<Rightarrow> ok False)"

definition zero_Fn :: Fn where
  "zero_Fn = \<lparr>fn_name = [], return_type = [], args = []\<rparr>"

definition zero_Arg :: Arg where
  "zero_Arg = \<lparr>arg_name = None, arg_type = []\<rparr>"

definition begin_fn :: "ParseH \<Rightarrow> ParseH outcome" where
  "begin_fn p = bind (assert (cur_fn p = None)) (\<lambda>_. ok (p\<lparr>cur_fn := Some zero_Fn\<rparr>))"

definition end_fn :: "ParseH \<Rightarrow> ParseH" where
  "end_fn p =
     (case cur_fn p of
        Some fn \<Rightarrow> p\<lparr>fn_list := fn_list p @ [fn], cur_fn := None\<rparr>
      | None \<Rightarrow> p)"

text \<open>
  An assignment through \<open>p->cur_fn\<close> changes the current function record; the program
  only makes one where a current function exists.
\<close>

definition on_cur_fn :: "(Fn \<Rightarrow> Fn) \<Rightarrow> ParseH \<Rightarrow> ParseH" where
  "on_cur_fn g p = p\<lparr>cur_fn := map_option g (cur_fn p)\<rparr>"

definition cur_arg_count :: "ParseH \<Rightarrow> nat" where
  "cur_arg_count p = (case cur_fn p of Some fn \<Rightarrow> arg_count fn | None \<Rightarrow> 0)"

definition set_arg_type :: "nat \<Rightarrow> string \<Rightarrow> Fn \<Rightarrow> Fn" where
  "set_arg_type i ty fn = fn\<lparr>args := (args fn)[i := (args fn ! i)\<lparr>arg_type := ty\<rparr>]\<rparr>"

definition set_arg_name :: "nat \<Rightarrow> string \<Rightarrow> Fn \<Rightarrow> Fn" where
  "set_arg_name i nm fn = fn\<lparr>args := (args fn)[i := (args fn ! i)\<lparr>arg_name := Some nm\<rparr>]\<rparr>"

text \<open>The loop that classifies the parameter types, from index \<open>i\<close> on.\<close>

function arg_types_loop :: "CXFunctionType \<Rightarrow> nat \<Rightarrow> ParseH \<Rightarrow> ParseH outcome" where
  "arg_types_loop fn_type i p =
     (if i < cur_arg_count p then
        (let param_type = clang_getArgType fn_type i in
         bind (to_zig_type p param_type) (\<lambda>ty.
           arg_types_loop fn_type (i + 1) (on_cur_fn (set_arg_type i ty) p)))
      else ok p)"
  by pat_completeness auto
termination
proof (relation "measure (\<lambda>(fn_type, i, p). cur_arg_count p - i)")
  show "wf (measure (\<lambda>(fn_type :: CXFunctionType, i :: nat, p :: ParseH). cur_arg_count p - i))"
    by simp
next
  fix fn_type :: CXFunctionType and i :: nat and p :: ParseH and x :: CXType and xa :: string
  assume lt: "i < cur_arg_count p"
  have "cur_arg_count (on_cur_fn (set_arg_type i xa) p) = cur_arg_count p"
    by (cases "cur_fn p") (simp_all add: cur_arg_count_def on_cur_fn_def set_arg_type_def arg_count_def)
  with lt show "((fn_type, i + 1, on_cur_fn (set_arg_type i xa) p), (fn_type, i, p))
      \<in> measure (\<lambda>(fn_type, i, p). cur_arg_count p - i)"
    by simp
qed

declare arg_types_loop.simps [simp del]

text \<open>
  The visitor. The cursor \<open>parent\<close> is not used by the program and left out. The result
  tells libclang whether to go on with the children or with the next sibling.
\<close>

definition fn_visitor :: "CXCursor \<Rightarrow> ParseH \<Rightarrow> (ParseH \<times> CXChildVisitResult) outcome" where
  "fn_visitor cursor p0 =
    (let kind = clang_getCursorKind cursor;
         name = clang_getCursorSpelling cursor;
         p1 = p0\<lparr>src_range := clang_getCursorExtent cursor\<rparr>;
         p = p1\<lparr>location := clang_getRangeStart (src_range p1)\<rparr>
     in case kind of
       CXCursor_FunctionDecl \<Rightarrow>
         (let storage_class = clang_Cursor_getStorageClass cursor in
          bind (is_storage_class_export storage_class) (\<lambda>export.
            if \<not> export then ok (p, CXChildVisit_Continue)
            else
              (let fn_type = clang_getCursorType cursor in
               if clang_isFunctionTypeVariadic fn_type then
                 after (print_location p)
                   (after (''warning: skipping variadic function, not yet supported'' @ newline)
                     (ok (p, CXChildVisit_Continue)))
               else if clang_getFunctionTypeCallingConv fn_type \<noteq> CXCallingConv_C then
                 after (print_location p)
                   (after (''warning: skipping non c calling convention function, not yet supported'' @ newline)
                     (ok (p, CXChildVisit_Continue)))
               else
                 bind (begin_fn (end_fn p)) (\<lambda>p.
                   let return_type = clang_getResultType fn_type in
                   bind (to_zig_type p return_type) (\<lambda>rt.
                     let p = on_cur_fn (\<lambda>fn. fn\<lparr>return_type := rt\<rparr>) p;
                         p = on_cur_fn (\<lambda>fn. fn\<lparr>fn_name := name\<rparr>) p;
                         p = on_cur_fn (\<lambda>fn. fn\<lparr>args := replicate (clang_getNumArgTypes fn_type) zero_Arg\<rparr>) p
                     in bind (arg_types_loop fn_type 0 p) (\<lambda>p.
                          ok (p\<lparr>arg_index := 0\<rparr>, CXChildVisit_Recurse)))))))
     | CXCursor_ParmDecl \<Rightarrow>
         bind (assert (cur_fn p \<noteq> None)) (\<lambda>_.
         bind (assert (arg_index p < cur_arg_count p)) (\<lambda>_.
           let p = on_cur_fn (set_arg_name (arg_index p) name) p;
               p = p\<lparr>arg_index := arg_index p + 1\<rparr>
           in ok (p, CXChildVisit_Continue)))
     | CXCursor_UnexposedAttr \<Rightarrow> ok (p, CXChildVisit_Continue)
     | CXCursor_CompoundStmt \<Rightarrow> ok (p, CXChildVisit_Continue)
     | CXCursor_FieldDecl \<Rightarrow> ok (p, CXChildVisit_Continue)
     | CXCursor_TypedefDecl \<Rightarrow> ok (p, CXChildVisit_Continue)
     | CXCursor_Other k \<Rightarrow> ok (p, CXChildVisit_Recurse))"

text \<open>
  The cursors form a tree. \<open>clang_visitChildren\<close> calls the visitor on the children
  of a cursor in order, with the same client data. The answer of the visitor decides
  how it goes on: \<open>CXChildVisit_Recurse\<close> visits the children of the cursor just
  visited before the next sibling, \<open>CXChildVisit_Continue\<close> goes to the next sibling
  without visiting them, \<open>CXChildVisit_Break\<close> ends the traversal. The result
  tells whether the traversal was ended that way. A failure ends the process.
\<close>

datatype CXNode = CXNode (node_cursor: CXCursor) (node_children: "CXNode list")

fun clang_visitChildren :: "CXNode list \<Rightarrow> ParseH \<Rightarrow> (ParseH \<times> bool) outcome" where
  "clang_visitChildren [] p = ok (p, False)"
| "clang_visitChildren (CXNode cursor children # siblings) p =
     bind (fn_visitor cursor p) (\<lambda>(p, r).
       case r of
         CXChildVisit_Break \<Rightarrow> ok (p, True)
       | CXChildVisit_Continue \<Rightarrow> clang_visitChildren siblings p
       | CXChildVisit_Recurse \<Rightarrow>
           bind (clang_visitChildren children p) (\<lambda>(p, stopped).
             if stopped then ok (p, True) else clang_visitChildren siblings p))"

definition zero_location :: CXSourceLocation where
  "zero_location = \<lparr>file_name = [], line = 0, column = 0\<rparr>"

definition zero_ParseH :: ParseH where
  "zero_ParseH = \<lparr>fn_list = [], cur_fn = None, arg_index = 0, cur_indent = 0,
     src_range = \<lparr>range_start = zero_location, range_end = zero_location\<rparr>,
     location = zero_location\<rparr>"


section \<open>The emitter\<close>

text \<open>
  \<open>buf_ptr\<close> is not among the source files. It returns the characters of a \<open>Buf\<close>;
  a zeroed \<open>Buf\<close> has none to return, and the run ends there.

  The emitter writes with one \<open>fprintf\<close> after the other. A computation of the
  emitter yields the text it has handed to the sink so far, and \<open>after\<close> puts a
  text in front of what follows. The arguments of an \<open>fprintf\<close> are computed before
  it writes.
\<close>

definition buf_ptr :: "string option \<Rightarrow> string outcome" where
  "buf_ptr buf = (case buf of Some s \<Rightarrow> ok s | None \<Rightarrow> ([], Inl UninitializedBuf))"

definition print_indent :: "ParseH \<Rightarrow> string" where
  "print_indent p = replicate (cur_indent p) CHR '' ''"

text \<open>The loop over the arguments of one function, from index \<open>arg_i\<close> on.\<close>

function emit_args :: "Fn \<Rightarrow> nat \<Rightarrow> unit outcome" where
  "emit_args fn arg_i =
     (if arg_i < arg_count fn then
        (let arg = args fn ! arg_i in
         bind (buf_ptr (arg_name arg)) (\<lambda>name.
           after (name @ '': '' @ arg_type arg)
             (after (if arg_i + 1 < arg_count fn then '', '' else [])
               (emit_args fn (arg_i + 1)))))
      else ok ())"
  by pat_completeness auto
termination
  by (relation "measure (\<lambda>(fn, arg_i). arg_count fn - arg_i)") auto

declare emit_args.simps [simp del]

definition emit_fn :: "ParseH \<Rightarrow> Fn \<Rightarrow> unit outcome" where
  "emit_fn p fn =
     after (print_indent p)
       (after (''fn '' @ fn_name fn @ ''('')
         (bind (emit_args fn 0) (\<lambda>_.
            after '')''
              (after (if return_type fn \<noteq> ''void'' then '' -> '' @ return_type fn else [])
                (after ('';'' @ newline) (ok ()))))))"

text \<open>The loop over the collected functions, from index \<open>fn_i\<close> on.\<close>

function emit_fns :: "ParseH \<Rightarrow> nat \<Rightarrow> unit outcome" where
  "emit_fns p fn_i =
     (if fn_i < length (fn_list p) then
        (let fn = fn_list p ! fn_i in
         bind (emit_fn p fn) (\<lambda>_. emit_fns p (fn_i + 1)))
      else ok ())"
  by pat_completeness auto
termination
  by (relation "measure (\<lambda>(p, fn_i). length (fn_list p) - fn_i)") auto

declare emit_fns.simps [simp del]

definition emit :: "ParseH \<Rightarrow> unit outcome" where
  "emit p =
     (if length (fn_list p) \<noteq> 0 then
        after (''extern {'' @ newline)
          (let p = p\<lparr>cur_indent := cur_indent p + indent_size\<rparr> in
           bind (emit_fns p 0) (\<lambda>_. after (''}'' @ newline) (ok ())))
      else ok ())"

section \<open>Compiler flags from the environment\<close>

text \<open>
  \<open>strstr_space start\<close> is \<open>strstr(start, " ")\<close>: the offset of the first space, if
  there is one. The argument list holds C strings and, at its end, a null pointer.
\<close>

fun strstr_space :: "string \<Rightarrow> nat option" where
  "strstr_space [] = None"
| "strstr_space (c # cs) = (if c = CHR '' '' then Some 0 else map_option Suc (strstr_space cs))"

function cflags_loop :: "string \<Rightarrow> string option list \<Rightarrow> string option list" where
  "cflags_loop start clang_argv =
     (case strstr_space start of
        Some space \<Rightarrow>
          cflags_loop (drop (space + 1) start)
            (if space > 0 then clang_argv @ [Some (take space start)] else clang_argv)
      | None \<Rightarrow> clang_argv @ [Some start])"
  by pat_completeness auto
termination
proof (relation "measure (\<lambda>(start, clang_argv). length start)")
  show "wf (measure (\<lambda>(start :: string, clang_argv :: string option list). length start))"
    by simp
next
  fix start :: string and clang_argv :: "string option list" and x2 :: nat
  assume s: "strstr_space start = Some x2"
  have "strstr_space t = Some k \<Longrightarrow> k < length t" for t k
    by (induction t arbitrary: k) (auto split: if_splits)
  with s have "x2 < length start" by blast
  then show "((drop (x2 + 1) start,
               if 0 < x2 then clang_argv @ [Some (take x2 start)] else clang_argv),
              (start, clang_argv)) \<in> measure (\<lambda>(start, clang_argv). length start)"
    by simp
qed

declare cflags_loop.simps [simp del]

text \<open>
  The argument list after the flags of \<open>ZIG_PARSEH_CFLAGS\<close> (the value \<open>getenv\<close>
  returns, \<open>None\<close> for an unset variable) and the null sentinel have been appended.
\<close>

definition append_cflags :: "string option \<Rightarrow> string option list \<Rightarrow> string option list" where
  "append_cflags ZIG_PARSEH_CFLAGS clang_argv =
     (case ZIG_PARSEH_CFLAGS of
        Some start \<Rightarrow> cflags_loop start clang_argv
      | None \<Rightarrow> clang_argv) @ [None]"

text \<open>
  The run after a successful parse: the traversal of the children of the translation
  unit's cursor, the final \<open>end_fn\<close>, the emission. A run has the text written to
  the error stream, the text handed to the sink, and the failure that ended it, if
  one did.
\<close>

record Run =
  err_text :: string
  out_text :: string
  failure :: "error option"

definition translate :: "CXNode \<Rightarrow> Run" where
  "translate tu =
     (case clang_visitChildren (node_children tu) zero_ParseH of
        (err, Inl e) \<Rightarrow> \<lparr>err_text = err, out_text = [], failure = Some e\<rparr>
      | (err, Inr (p, stopped)) \<Rightarrow>
          (case emit (end_fn p) of
             (out, Inl e) \<Rightarrow> \<lparr>err_text = err, out_text = out, failure = Some e\<rparr>
           | (out, Inr u) \<Rightarrow> \<lparr>err_text = err, out_text = out, failure = None\<rparr>))"

section \<open>Reference definitions and example values\<close>

text \<open>
  The definitions of this section are not part of the program. They say in the words
  of the specification what the program is compared with, and name the values the
  examples use.
\<close>

text \<open>The fixed-width integer aliases and the sized integer type of each.\<close>

definition fixed_width_aliases :: "(string \<times> string) list" where
  "fixed_width_aliases =
     [(''int8_t'', ''i8''), (''int16_t'', ''i16''), (''int32_t'', ''i32''), (''int64_t'', ''i64''),
      (''uint8_t'', ''u8''), (''uint16_t'', ''u16''), (''uint32_t'', ''u32''), (''uint64_t'', ''u64'')]"

text \<open>The number a string of decimal digits denotes.\<close>

definition digit_value :: "char \<Rightarrow> nat" where
  "digit_value c = of_char c - 48"

definition decimal_value :: "string \<Rightarrow> nat" where
  "decimal_value s = foldl (\<lambda>a c. 10 * a + digit_value c) 0 s"

text \<open>Types for the examples: a builtin type, a typedef, a pointer, two arrays.\<close>

definition builtin_type :: "CXTypeKind \<Rightarrow> bool \<Rightarrow> CXType" where
  "builtin_type k c = CXType k c [] (- 1) InvalidType InvalidType InvalidType InvalidType"

definition typedef_type :: "string \<Rightarrow> CXType \<Rightarrow> CXType" where
  "typedef_type sp u = CXType CXType_Typedef False sp (- 1) InvalidType InvalidType InvalidType u"

definition pointer_type :: "CXType \<Rightarrow> CXType" where
  "pointer_type t = CXType CXType_Pointer False [] (- 1) InvalidType t InvalidType InvalidType"

definition incomplete_array_type :: "CXType \<Rightarrow> CXType" where
  "incomplete_array_type t =
     CXType CXType_IncompleteArray False [] (- 1) InvalidType InvalidType t InvalidType"

definition constant_array_type :: "CXType \<Rightarrow> int \<Rightarrow> CXType" where
  "constant_array_type t n =
     CXType CXType_ConstantArray False [] n InvalidType InvalidType t InvalidType"

text \<open>
  Splitting at every space: the segments between the spaces, also the empty ones, in
  order; joining them with one space each gives the string back.
\<close>

fun split_spaces :: "string \<Rightarrow> string list" where
  "split_spaces [] = [[]]"
| "split_spaces (c # cs) =
     (if c = CHR '' '' then [] # split_spaces cs
      else (case split_spaces cs of
              [] \<Rightarrow> [[c]]
            | seg # segs \<Rightarrow> (c # seg) # segs))"

fun join_spaces :: "string list \<Rightarrow> string" where
  "join_spaces [] = []"
| "join_spaces [seg] = seg"
| "join_spaces (seg # segs) = seg @ '' '' @ join_spaces segs"

text \<open>
  Of the segments of a split, the ones taken as tokens: every segment in front of a
  space unless it is empty, and the segment after the last space.
\<close>

definition kept_tokens :: "string list \<Rightarrow> string list" where
  "kept_tokens segs = filter (\<lambda>t. t \<noteq> []) (butlast segs) @ [last segs]"


text \<open>
  The block the emitter is to write: one line for each function, with four spaces in
  front, the arguments separated by a comma and a space, and the return type left out
  when it is spelled \<open>void\<close>.
\<close>

definition spec_arg :: "Arg \<Rightarrow> string" where
  "spec_arg a = (case arg_name a of Some name \<Rightarrow> name | None \<Rightarrow> []) @ '': '' @ arg_type a"

fun comma_separated :: "string list \<Rightarrow> string" where
  "comma_separated [] = []"
| "comma_separated [x] = x"
| "comma_separated (x # xs) = x @ '', '' @ comma_separated xs"

definition spec_fn_line :: "Fn \<Rightarrow> string" where
  "spec_fn_line fn =
     ''    fn '' @ fn_name fn @ ''('' @ comma_separated (map spec_arg (args fn)) @ '')''
       @ (if return_type fn = ''void'' then [] else '' -> '' @ return_type fn)
       @ '';'' @ newline"

definition spec_extern_block :: "Fn list \<Rightarrow> string" where
  "spec_extern_block fns = ''extern {'' @ newline @ concat (map spec_fn_line fns) @ ''}'' @ newline"

text \<open>A function all of whose arguments have had their name set.\<close>

definition all_named :: "Fn \<Rightarrow> bool" where
  "all_named fn = list_all (\<lambda>a. arg_name a \<noteq> None) (args fn)"

definition example_fn_list :: "Fn list" where
  "example_fn_list =
     [\<lparr>fn_name = ''add'', return_type = ''i32'',
        args = [\<lparr>arg_name = Some ''a'', arg_type = ''i32''\<rparr>,
                \<lparr>arg_name = Some ''b'', arg_type = ''i32''\<rparr>]\<rparr>,
      \<lparr>fn_name = ''log'', return_type = ''void'',
        args = [\<lparr>arg_name = Some ''msg'', arg_type = ''*const u8''\<rparr>]\<rparr>]"

text \<open>
  The state after the visitor has recorded the extent of the cursor it is called on.
\<close>

definition at_cursor :: "CXCursor \<Rightarrow> ParseH \<Rightarrow> ParseH" where
  "at_cursor cursor p =
     p\<lparr>src_range := clang_getCursorExtent cursor,
       location := range_start (clang_getCursorExtent cursor)\<rparr>"

text \<open>
  A function declaration the collector takes: exported storage class, not variadic,
  C calling convention.
\<close>

definition is_exported_fn :: "CXCursor \<Rightarrow> bool" where
  "is_exported_fn c =
     (clang_getCursorKind c = CXCursor_FunctionDecl
      \<and> clang_Cursor_getStorageClass c \<in> {CX_SC_None, CX_SC_Extern, CX_SC_Auto}
      \<and> \<not> clang_isFunctionTypeVariadic (clang_getCursorType c)
      \<and> clang_getFunctionTypeCallingConv (clang_getCursorType c) = CXCallingConv_C)"

definition declared_arity :: "CXCursor \<Rightarrow> nat" where
  "declared_arity c = clang_getNumArgTypes (clang_getCursorType c)"

text \<open>Cursors for the examples, all at line 3, column 1 of \<open>a.h\<close>.\<close>

definition example_extent :: CXSourceRange where
  "example_extent =
     \<lparr>range_start = \<lparr>file_name = ''a.h'', line = 3, column = 1\<rparr>,
      range_end = \<lparr>file_name = ''a.h'', line = 3, column = 9\<rparr>\<rparr>"

definition function_decl ::
  "string \<Rightarrow> CX_StorageClass \<Rightarrow> bool \<Rightarrow> CXCallingConv \<Rightarrow> CXType \<Rightarrow> CXType list \<Rightarrow> CXCursor" where
  "function_decl nm sc variadic cc result params =
     \<lparr>clang_getCursorKind = CXCursor_FunctionDecl, clang_getCursorSpelling = nm,
      clang_Cursor_getStorageClass = sc,
      clang_getCursorType =
        \<lparr>clang_isFunctionTypeVariadic = variadic, clang_getFunctionTypeCallingConv = cc,
         clang_getResultType = result, arg_types = params\<rparr>,
      clang_getCursorExtent = example_extent\<rparr>"

definition other_decl :: "CXCursorKind \<Rightarrow> string \<Rightarrow> CXCursor" where
  "other_decl k nm =
     \<lparr>clang_getCursorKind = k, clang_getCursorSpelling = nm,
      clang_Cursor_getStorageClass = CX_SC_Invalid,
      clang_getCursorType =
        \<lparr>clang_isFunctionTypeVariadic = False, clang_getFunctionTypeCallingConv = CXCallingConv_C,
         clang_getResultType = InvalidType, arg_types = []\<rparr>,
      clang_getCursorExtent = example_extent\<rparr>"

definition parm_decl :: "string \<Rightarrow> CXCursor" where
  "parm_decl nm = other_decl CXCursor_ParmDecl nm"

text \<open>
  A variable declaration (cursor kind 9) and a type reference (cursor kind 43), two of
  the kinds the visitor does not name.
\<close>

definition var_decl :: "string \<Rightarrow> CXCursor" where
  "var_decl nm = (other_decl (CXCursor_Other 9) nm)\<lparr>clang_Cursor_getStorageClass := CX_SC_None\<rparr>"

definition type_ref :: "string \<Rightarrow> CXCursor" where
  "type_ref nm = other_decl (CXCursor_Other 43) nm"

text \<open>
  The declarations of the example, \<open>int32_t add(int32_t a, int32_t b);\<close> and
  \<open>extern void log(const unsigned char *msg);\<close> with a typedef between them, as the
  tree of cursors of a translation unit.
\<close>

definition add_decl :: CXCursor where
  "add_decl =
     function_decl ''add'' CX_SC_None False CXCallingConv_C
       (typedef_type ''int32_t'' (builtin_type CXType_Int False))
       [typedef_type ''int32_t'' (builtin_type CXType_Int False),
        typedef_type ''int32_t'' (builtin_type CXType_Int False)]"

definition log_decl :: CXCursor where
  "log_decl =
     function_decl ''log'' CX_SC_Extern False CXCallingConv_C
       (builtin_type CXType_Void False)
       [pointer_type (builtin_type CXType_UChar True)]"

definition example_tu :: CXNode where
  "example_tu =
     CXNode (other_decl (CXCursor_Other 300) ''a.h'')
       [CXNode add_decl [CXNode (parm_decl ''a'') [], CXNode (parm_decl ''b'') []],
        CXNode (other_decl CXCursor_TypedefDecl ''size_type'') [],
        CXNode log_decl [CXNode (parm_decl ''msg'') []]]"

text \<open>
  The header \<open>typedef int F(int); F f;\<close>. The function \<open>f\<close> has a function type
  with one parameter, and its declaration has no parameter declaration below it, only
  the reference to the type \<open>F\<close>. The parameter declaration of the typedef is below
  the typedef.
\<close>

definition typedef_fn_decl :: CXCursor where
  "typedef_fn_decl =
     function_decl ''f'' CX_SC_None False CXCallingConv_C
       (builtin_type CXType_Int False) [builtin_type CXType_Int False]"

definition typedef_fn_tu :: CXNode where
  "typedef_fn_tu =
     CXNode (other_decl (CXCursor_Other 300) ''a.h'')
       [CXNode (other_decl CXCursor_TypedefDecl ''F'') [CXNode (parm_decl []) []],
        CXNode typedef_fn_decl [CXNode (type_ref ''F'') []]]"

text \<open>
  The header \<open>void (*handler)(int sig);\<close>: a variable declaration with the parameter
  declaration of its function pointer type below it. The same after the declaration
  of \<open>log\<close>, and after the function \<open>f\<close> of the header above.
\<close>

definition handler_tu :: CXNode where
  "handler_tu =
     CXNode (other_decl (CXCursor_Other 300) ''a.h'')
       [CXNode (var_decl ''handler'') [CXNode (parm_decl ''sig'') []]]"

definition log_handler_tu :: CXNode where
  "log_handler_tu =
     CXNode (other_decl (CXCursor_Other 300) ''a.h'')
       [CXNode log_decl [CXNode (parm_decl ''msg'') []],
        CXNode (var_decl ''handler'') [CXNode (parm_decl ''sig'') []]]"

definition typedef_fn_handler_tu :: CXNode where
  "typedef_fn_handler_tu =
     CXNode (other_decl (CXCursor_Other 300) ''a.h'')
       [CXNode (other_decl CXCursor_TypedefDecl ''F'') [CXNode (parm_decl []) []],
        CXNode typedef_fn_decl [CXNode (type_ref ''F'') []],
        CXNode (var_decl ''handler'') [CXNode (parm_decl ''sig'') []]]"

section \<open>Name cleaning: properties\<close>

lemma str_has_prefix_iff: "str_has_prefix s q \<longleftrightarrow> prefix q s"
  by (induction s q rule: str_has_prefix.induct) auto

lemma strip_loop_unfold:
  "strip_loop s =
     (if prefix ''struct '' s then strip_loop (drop (length ''struct '') s)
      else if prefix ''enum '' s then strip_loop (drop (length ''enum '') s)
      else if prefix ''const '' s then strip_loop (drop (length ''const '') s)
      else s)"
  by (subst strip_loop.simps) (simp add: prefixes_def str_has_prefix_iff)

lemma strip_loop_clean:
  "\<not> prefix ''struct '' s \<Longrightarrow> \<not> prefix ''enum '' s \<Longrightarrow> \<not> prefix ''const '' s \<Longrightarrow> strip_loop s = s"
  by (subst strip_loop_unfold) simp

lemma strip_loop_result_clean:
  "\<not> prefix ''struct '' (strip_loop s) \<and> \<not> prefix ''enum '' (strip_loop s) \<and> \<not> prefix ''const '' (strip_loop s)"
proof (induction s rule: strip_loop.induct)
  case (1 c_name)
  show ?case
  proof (cases "find (str_has_prefix c_name) prefixes")
    case None
    then have "strip_loop c_name = c_name" by (subst strip_loop.simps) simp
    moreover from None have "\<not> prefix ''struct '' c_name \<and> \<not> prefix ''enum '' c_name \<and> \<not> prefix ''const '' c_name"
      by (simp add: prefixes_def str_has_prefix_iff split: if_splits)
    ultimately show ?thesis by simp
  next
    case (Some pre)
    then have "strip_loop c_name = strip_loop (drop (length pre) c_name)"
      by (subst strip_loop.simps) simp
    with 1 [OF Some] show ?thesis by simp
  qed
qed

lemma strip_loop_idem: "strip_loop (strip_loop s) = strip_loop s"
  using strip_loop_result_clean [of s] by (simp add: strip_loop_clean)

text \<open>
  C7. The name cleaning removes the first candidate of \<open>struct\<close>, \<open>enum\<close>, \<open>const\<close>
  (each with its space) that is a prefix of the string and starts over on the rest,
  until none is a prefix; so its result begins with no candidate. It maps
  \<open>const struct Foo\<close> to \<open>Foo\<close>, leaves a string that begins with no candidate
  unchanged, and applying it twice gives the same as applying it once. The function
  \<open>prefixes_stripped\<close> applies it to the spelling of a type.
\<close>

theorem name_cleaning:
  "(strip_loop s =
     (if prefix ''struct '' s then strip_loop (drop (length ''struct '') s)
      else if prefix ''enum '' s then strip_loop (drop (length ''enum '') s)
      else if prefix ''const '' s then strip_loop (drop (length ''const '') s)
      else s))
   \<and> (\<forall>pre \<in> set prefixes. \<not> prefix pre (strip_loop s))
   \<and> strip_loop ''const struct Foo'' = ''Foo''
   \<and> ((\<forall>pre \<in> set prefixes. \<not> prefix pre s) \<longrightarrow> strip_loop s = s)
   \<and> strip_loop (strip_loop s) = strip_loop s
   \<and> prefixes_stripped (CXType k c s n t1 t2 t3 t4) = strip_loop s"
proof -
  have a: "strip_loop s =
     (if prefix ''struct '' s then strip_loop (drop (length ''struct '') s)
      else if prefix ''enum '' s then strip_loop (drop (length ''enum '') s)
      else if prefix ''const '' s then strip_loop (drop (length ''const '') s)
      else s)"
    by (rule strip_loop_unfold)
  have b: "\<forall>pre \<in> set prefixes. \<not> prefix pre (strip_loop s)"
    using strip_loop_result_clean [of s] by (simp add: prefixes_def)
  have c: "strip_loop ''const struct Foo'' = ''Foo''"
    by (simp add: strip_loop_unfold)
  have d: "(\<forall>pre \<in> set prefixes. \<not> prefix pre s) \<longrightarrow> strip_loop s = s"
    using strip_loop_clean [of s] by (simp add: prefixes_def)
  have e: "prefixes_stripped (CXType k c s n t1 t2 t3 t4) = strip_loop s"
    by (simp add: prefixes_stripped_def)
  from a b c d e strip_loop_idem [of s] show ?thesis
    by blast
qed

theorem name_cleaning_witness:
  "list_all (\<lambda>pre. \<not> prefix pre ''Foo'') prefixes \<and> strip_loop ''Foo'' = ''Foo''
   \<and> strip_loop (strip_loop ''enum const Foo'') = strip_loop ''enum const Foo''"
proof -
  have h: "\<forall>pre \<in> set prefixes. \<not> prefix pre ''Foo''"
    by (simp add: prefixes_def)
  from name_cleaning [of "''Foo''"] h have "strip_loop ''Foo'' = ''Foo''"
    by blast
  moreover from name_cleaning [of "''enum const Foo''"]
  have "strip_loop (strip_loop ''enum const Foo'') = strip_loop ''enum const Foo''"
    by blast
  ultimately show ?thesis using h by (simp add: list_all_iff)
qed

section \<open>The type classifier: properties\<close>

lemma bind_Inr: "bind (w, Inr x) k = (w @ fst (k x), snd (k x))"
  by (simp add: bind_def after_def)

lemma bind_Inl: "bind (w, Inl e) k = (w, Inl e)"
  by (simp add: bind_def)

lemma bind_ok: "bind (ok x) k = k x"
  by (simp add: bind_def ok_def after_def)

lemma to_zig_type_Pointer:
  "kind t = CXType_Pointer \<Longrightarrow>
   to_zig_type p t =
     bind (to_zig_type p (clang_getPointeeType t)) (\<lambda>pointee_buf.
       if clang_isConstQualifiedType (clang_getPointeeType t)
       then ok (''*const '' @ pointee_buf) else ok (''*mut '' @ pointee_buf))"
  by (subst to_zig_type.simps) (simp add: Let_def)

lemma to_zig_type_IncompleteArray:
  "kind t = CXType_IncompleteArray \<Longrightarrow>
   to_zig_type p t =
     bind (to_zig_type p (clang_getArrayElementType t)) (\<lambda>pointee_buf.
       if clang_isConstQualifiedType (clang_getArrayElementType t)
       then ok (''*const '' @ pointee_buf) else ok (''*mut '' @ pointee_buf))"
  by (subst to_zig_type.simps) (simp add: Let_def)

lemma to_zig_type_ConstantArray:
  "kind t = CXType_ConstantArray \<Longrightarrow>
   to_zig_type p t =
     bind (to_zig_type p (clang_getArrayElementType t)) (\<lambda>zig_child_type.
       ok (''['' @ zig_child_type @ ''; '' @ show_int (clang_getArraySize t) @ '']''))"
  by (subst to_zig_type.simps) (simp add: Let_def)

lemma to_zig_type_Typedef:
  "kind t = CXType_Typedef \<Longrightarrow>
   to_zig_type p t =
     (let name = prefixes_stripped t in
      if name = ''int8_t'' then ok ''i8''
      else if name = ''uint8_t'' then ok ''u8''
      else if name = ''uint16_t'' then ok ''u16''
      else if name = ''uint32_t'' then ok ''u32''
      else if name = ''uint64_t'' then ok ''u64''
      else if name = ''int16_t'' then ok ''i16''
      else if name = ''int32_t'' then ok ''i32''
      else if name = ''int64_t'' then ok ''i64''
      else to_zig_type p (clang_getTypedefDeclUnderlyingType t))"
  by (subst to_zig_type.simps) (simp add: Let_def)

lemma to_zig_type_plain_int:
  "kind t = CXType_Short \<Longrightarrow> to_zig_type p t = ok ''c_short''"
  "kind t = CXType_UShort \<Longrightarrow> to_zig_type p t = ok ''c_ushort''"
  "kind t = CXType_Int \<Longrightarrow> to_zig_type p t = ok ''c_int''"
  "kind t = CXType_UInt \<Longrightarrow> to_zig_type p t = ok ''c_uint''"
  "kind t = CXType_Long \<Longrightarrow> to_zig_type p t = ok ''c_long''"
  "kind t = CXType_ULong \<Longrightarrow> to_zig_type p t = ok ''c_ulong''"
  "kind t = CXType_LongLong \<Longrightarrow> to_zig_type p t = ok ''c_longlong''"
  "kind t = CXType_ULongLong \<Longrightarrow> to_zig_type p t = ok ''c_ulonglong''"
  by (subst to_zig_type.simps, simp)+

lemma digit_value_digit_char: "d < 10 \<Longrightarrow> digit_value (digit_char d) = d"
proof -
  assume "d < 10"
  then have "d \<in> {0, 1, 2, 3, 4, 5, 6, 7, 8, 9}" by auto
  then show ?thesis
    by (auto simp: digit_value_def digit_char_def)
qed

lemma digit_char_range: "d < 10 \<Longrightarrow> digit_char d \<in> set ''0123456789''"
  unfolding digit_char_def by (rule nth_mem) simp

lemma decimal_value_snoc: "decimal_value (s @ [c]) = 10 * decimal_value s + digit_value c"
  by (simp add: decimal_value_def)

lemma decimal_value_show_nat: "decimal_value (show_nat n) = n"
proof (induction n rule: show_nat.induct)
  case (1 n)
  show ?case
  proof (cases "n < 10")
    case True
    then show ?thesis
      by (subst show_nat.simps) (simp add: decimal_value_def digit_value_digit_char)
  next
    case False
    with 1 have "decimal_value (show_nat (n div 10)) = n div 10" by simp
    with False show ?thesis
      by (subst show_nat.simps) (simp add: decimal_value_snoc digit_value_digit_char)
  qed
qed

lemma show_nat_digits: "set (show_nat n) \<subseteq> set ''0123456789''"
proof (induction n rule: show_nat.induct)
  case (1 n)
  show ?case
  proof (cases "n < 10")
    case True
    then show ?thesis
      using digit_char_range [of n] by (subst show_nat.simps) simp
  next
    case False
    with 1 have "set (show_nat (n div 10)) \<subseteq> set ''0123456789''" by simp
    with False show ?thesis
      using digit_char_range [of "n mod 10"] by (subst show_nat.simps) simp
  qed
qed

lemma show_nat_0: "show_nat 0 = ''0''"
  by (subst show_nat.simps) (simp add: digit_char_def)

lemma show_nat_4: "show_nat 4 = ''4''"
  by (subst show_nat.simps) (simp add: digit_char_def)

lemma show_int_nonneg: "0 \<le> n \<Longrightarrow> show_int n = show_nat (nat n)"
  by (simp add: show_int_def)

text \<open>
  C2. A typedef whose cleaned spelling is one of the eight fixed-width integer aliases
  is classified as the sized integer type of that alias, whatever its underlying type
  is: a typedef spelled \<open>uint32_t\<close> yields \<open>u32\<close> for every underlying type. A
  typedef with any other cleaned spelling is classified as its underlying type is.
\<close>

theorem typedef_shortcut:
  "(kind t = CXType_Typedef \<longrightarrow>
     to_zig_type p t =
       (case map_of fixed_width_aliases (prefixes_stripped t) of
          Some sized \<Rightarrow> ok sized
        | None \<Rightarrow> to_zig_type p (clang_getTypedefDeclUnderlyingType t)))
   \<and> to_zig_type p (CXType CXType_Typedef c ''uint32_t'' n t1 t2 t3 underlying) = ok ''u32''"
proof -
  have a: "kind t = CXType_Typedef \<longrightarrow>
     to_zig_type p t =
       (case map_of fixed_width_aliases (prefixes_stripped t) of
          Some sized \<Rightarrow> ok sized
        | None \<Rightarrow> to_zig_type p (clang_getTypedefDeclUnderlyingType t))"
    by (simp add: to_zig_type_Typedef fixed_width_aliases_def Let_def)
  have "strip_loop ''uint32_t'' = ''uint32_t''"
    by (simp add: strip_loop_unfold)
  then have b: "to_zig_type p (CXType CXType_Typedef c ''uint32_t'' n t1 t2 t3 underlying) = ok ''u32''"
    by (simp add: to_zig_type_Typedef prefixes_stripped_def)
  from a b show ?thesis by blast
qed

theorem typedef_shortcut_witness:
  "to_zig_type zero_ParseH (typedef_type ''int16_t'' (builtin_type CXType_Double False)) = ok ''i16''
   \<and> to_zig_type zero_ParseH (typedef_type ''const size_type'' (builtin_type CXType_ULong False))
       = ok ''c_ulong''"
proof -
  have k: "kind (typedef_type sp u) = CXType_Typedef" for sp u
    by (simp add: typedef_type_def)
  have s1: "prefixes_stripped (typedef_type ''int16_t'' u) = ''int16_t''" for u
    by (simp add: typedef_type_def prefixes_stripped_def strip_loop_unfold)
  have s2: "prefixes_stripped (typedef_type ''const size_type'' u) = ''size_type''" for u
    by (simp add: typedef_type_def prefixes_stripped_def strip_loop_unfold)
  have u: "to_zig_type zero_ParseH (builtin_type CXType_ULong False) = ok ''c_ulong''"
    by (simp add: to_zig_type_plain_int builtin_type_def)
  from typedef_shortcut [of "typedef_type ''int16_t'' (builtin_type CXType_Double False)" zero_ParseH] k s1
  have "to_zig_type zero_ParseH (typedef_type ''int16_t'' (builtin_type CXType_Double False)) = ok ''i16''"
    by (simp add: fixed_width_aliases_def)
  moreover
  from typedef_shortcut [of "typedef_type ''const size_type'' (builtin_type CXType_ULong False)" zero_ParseH] k s2 u
  have "to_zig_type zero_ParseH (typedef_type ''const size_type'' (builtin_type CXType_ULong False))
       = ok ''c_ulong''"
    by (simp add: fixed_width_aliases_def typedef_type_def)
  ultimately show ?thesis by blast
qed

text \<open>
  C10. The plain C integer kinds are classified as the named types \<open>c_short\<close>,
  \<open>c_ushort\<close>, \<open>c_int\<close>, \<open>c_uint\<close>, \<open>c_long\<close>, \<open>c_ulong\<close>, \<open>c_longlong\<close> and
  \<open>c_ulonglong\<close>, not as fixed-width types; a pointer to a const-qualified \<open>int\<close>
  is classified as \<open>*const c_int\<close>.
\<close>

theorem plain_integer_kinds:
  "(kind t = CXType_Short \<longrightarrow> to_zig_type p t = ok ''c_short'')
   \<and> (kind t = CXType_UShort \<longrightarrow> to_zig_type p t = ok ''c_ushort'')
   \<and> (kind t = CXType_Int \<longrightarrow> to_zig_type p t = ok ''c_int'')
   \<and> (kind t = CXType_UInt \<longrightarrow> to_zig_type p t = ok ''c_uint'')
   \<and> (kind t = CXType_Long \<longrightarrow> to_zig_type p t = ok ''c_long'')
   \<and> (kind t = CXType_ULong \<longrightarrow> to_zig_type p t = ok ''c_ulong'')
   \<and> (kind t = CXType_LongLong \<longrightarrow> to_zig_type p t = ok ''c_longlong'')
   \<and> (kind t = CXType_ULongLong \<longrightarrow> to_zig_type p t = ok ''c_ulonglong'')
   \<and> (kind q = CXType_Pointer \<and> kind (clang_getPointeeType q) = CXType_Int
        \<and> clang_isConstQualifiedType (clang_getPointeeType q)
      \<longrightarrow> to_zig_type p q = ok ''*const c_int'' \<and> to_zig_type p q \<noteq> ok ''*const i32'')"
proof -
  have "to_zig_type p q = ok ''*const c_int''"
    if "kind q = CXType_Pointer" and "kind (clang_getPointeeType q) = CXType_Int"
      and "clang_isConstQualifiedType (clang_getPointeeType q)"
    using that by (simp add: to_zig_type_Pointer to_zig_type_plain_int bind_ok)
  then show ?thesis
    by (simp add: to_zig_type_plain_int ok_def)
qed

theorem plain_integer_kinds_witness:
  "to_zig_type zero_ParseH (builtin_type CXType_Short False) = ok ''c_short''
   \<and> to_zig_type zero_ParseH (builtin_type CXType_UShort False) = ok ''c_ushort''
   \<and> to_zig_type zero_ParseH (builtin_type CXType_Int False) = ok ''c_int''
   \<and> to_zig_type zero_ParseH (builtin_type CXType_UInt False) = ok ''c_uint''
   \<and> to_zig_type zero_ParseH (builtin_type CXType_Long False) = ok ''c_long''
   \<and> to_zig_type zero_ParseH (builtin_type CXType_ULong False) = ok ''c_ulong''
   \<and> to_zig_type zero_ParseH (builtin_type CXType_LongLong False) = ok ''c_longlong''
   \<and> to_zig_type zero_ParseH (builtin_type CXType_ULongLong False) = ok ''c_ulonglong''
   \<and> to_zig_type zero_ParseH (pointer_type (builtin_type CXType_Int True)) = ok ''*const c_int''"
  using plain_integer_kinds [of "builtin_type CXType_Short False" zero_ParseH
      "pointer_type (builtin_type CXType_Int True)"]
    plain_integer_kinds [of "builtin_type CXType_UShort False" zero_ParseH]
    plain_integer_kinds [of "builtin_type CXType_Int False" zero_ParseH]
    plain_integer_kinds [of "builtin_type CXType_UInt False" zero_ParseH]
    plain_integer_kinds [of "builtin_type CXType_Long False" zero_ParseH]
    plain_integer_kinds [of "builtin_type CXType_ULong False" zero_ParseH]
    plain_integer_kinds [of "builtin_type CXType_LongLong False" zero_ParseH]
    plain_integer_kinds [of "builtin_type CXType_ULongLong False" zero_ParseH]
  by (simp add: builtin_type_def pointer_type_def)

text \<open>
  C6. A pointer is classified by classifying its pointee: when that yields the
  expression \<open>T\<close>, the pointer yields \<open>*const T\<close> if the pointee is const-qualified
  and \<open>*mut T\<close> otherwise, with the diagnostics of the pointee; when the pointee
  fails, the pointer fails in the same way. An incomplete array follows the same rule
  on its element type, so a pointer and an incomplete array over the same type yield
  the same.
\<close>

theorem pointer_and_incomplete_array:
  "(kind t = CXType_Pointer \<longrightarrow>
      (\<forall>w T. to_zig_type p (clang_getPointeeType t) = (w, Inr T) \<longrightarrow>
         to_zig_type p t =
           (w, Inr ((if clang_isConstQualifiedType (clang_getPointeeType t)
                     then ''*const '' else ''*mut '') @ T)))
      \<and> (\<forall>w e. to_zig_type p (clang_getPointeeType t) = (w, Inl e) \<longrightarrow>
         to_zig_type p t = (w, Inl e)))
   \<and> (kind a = CXType_IncompleteArray \<longrightarrow>
      (\<forall>w T. to_zig_type p (clang_getArrayElementType a) = (w, Inr T) \<longrightarrow>
         to_zig_type p a =
           (w, Inr ((if clang_isConstQualifiedType (clang_getArrayElementType a)
                     then ''*const '' else ''*mut '') @ T)))
      \<and> (\<forall>w e. to_zig_type p (clang_getArrayElementType a) = (w, Inl e) \<longrightarrow>
         to_zig_type p a = (w, Inl e)))
   \<and> (kind t = CXType_Pointer \<and> kind a = CXType_IncompleteArray
        \<and> clang_getPointeeType t = clang_getArrayElementType a
      \<longrightarrow> to_zig_type p t = to_zig_type p a)"
  by (simp add: to_zig_type_Pointer to_zig_type_IncompleteArray bind_Inr bind_Inl ok_def)

theorem pointer_and_incomplete_array_witness:
  "to_zig_type zero_ParseH (pointer_type (builtin_type CXType_UChar True)) = ([], Inr ''*const u8'')
   \<and> to_zig_type zero_ParseH (incomplete_array_type (builtin_type CXType_UChar False)) = ([], Inr ''*mut u8'')
   \<and> to_zig_type zero_ParseH (pointer_type (builtin_type CXType_Vector False))
       = ('' line 0, column 0'' @ newline, Inl (Panic ''TODO vector''))
   \<and> to_zig_type zero_ParseH (pointer_type (builtin_type CXType_Double False))
       = to_zig_type zero_ParseH (incomplete_array_type (builtin_type CXType_Double False))"
proof -
  have c: "to_zig_type zero_ParseH (builtin_type CXType_UChar b) = ([], Inr ''u8'')" for b
    by (subst to_zig_type.simps) (simp add: builtin_type_def ok_def)
  have v: "to_zig_type zero_ParseH (builtin_type CXType_Vector False)
       = ('' line 0, column 0'' @ newline, Inl (Panic ''TODO vector''))"
    by (subst to_zig_type.simps)
      (simp add: builtin_type_def todo_def after_def zig_panic_def print_location_def
        zero_ParseH_def zero_location_def show_nat_0)
  note th = pointer_and_incomplete_array
  from c th [of "pointer_type (builtin_type CXType_UChar True)" zero_ParseH]
  have 1: "to_zig_type zero_ParseH (pointer_type (builtin_type CXType_UChar True)) = ([], Inr ''*const u8'')"
    by (simp add: pointer_type_def builtin_type_def)
  from c th [of _ zero_ParseH "incomplete_array_type (builtin_type CXType_UChar False)"]
  have 2: "to_zig_type zero_ParseH (incomplete_array_type (builtin_type CXType_UChar False)) = ([], Inr ''*mut u8'')"
    by (simp add: incomplete_array_type_def builtin_type_def)
  from v th [of "pointer_type (builtin_type CXType_Vector False)" zero_ParseH]
  have 3: "to_zig_type zero_ParseH (pointer_type (builtin_type CXType_Vector False))
       = ('' line 0, column 0'' @ newline, Inl (Panic ''TODO vector''))"
    by (simp add: pointer_type_def)
  from th [of "pointer_type (builtin_type CXType_Double False)" zero_ParseH
      "incomplete_array_type (builtin_type CXType_Double False)"]
  have 4: "to_zig_type zero_ParseH (pointer_type (builtin_type CXType_Double False))
       = to_zig_type zero_ParseH (incomplete_array_type (builtin_type CXType_Double False))"
    by (simp add: pointer_type_def incomplete_array_type_def)
  from 1 2 3 4 show ?thesis by blast
qed

text \<open>
  C8. A constant array with a non-negative element count \<open>N\<close> whose element type is
  classified as \<open>T\<close> yields \<open>[T; N]\<close>, with \<open>N\<close> in decimal digits. A count of
  zero yields \<open>[T; 0]\<close>; four elements classified as \<open>i32\<close> yield \<open>[i32; 4]\<close>.
\<close>

theorem constant_array:
  "kind t = CXType_ConstantArray \<and> 0 \<le> clang_getArraySize t
     \<and> to_zig_type p (clang_getArrayElementType t) = (w, Inr T)
   \<longrightarrow> to_zig_type p t = (w, Inr (''['' @ T @ ''; '' @ show_nat (nat (clang_getArraySize t)) @ '']''))
     \<and> decimal_value (show_nat (nat (clang_getArraySize t))) = nat (clang_getArraySize t)
     \<and> set (show_nat (nat (clang_getArraySize t))) \<subseteq> set ''0123456789''
     \<and> (clang_getArraySize t = 0 \<longrightarrow> to_zig_type p t = (w, Inr (''['' @ T @ ''; 0]'')))
     \<and> (clang_getArraySize t = 4 \<and> T = ''i32'' \<longrightarrow> to_zig_type p t = (w, Inr ''[i32; 4]''))"
proof (intro impI)
  assume h: "kind t = CXType_ConstantArray \<and> 0 \<le> clang_getArraySize t
     \<and> to_zig_type p (clang_getArrayElementType t) = (w, Inr T)"
  then have r: "to_zig_type p t = (w, Inr (''['' @ T @ ''; '' @ show_nat (nat (clang_getArraySize t)) @ '']''))"
    by (simp add: to_zig_type_ConstantArray bind_Inr ok_def show_int_nonneg)
  have z: "clang_getArraySize t = 0 \<longrightarrow> to_zig_type p t = (w, Inr (''['' @ T @ ''; 0]''))"
    using r by (simp add: show_nat_0)
  have f: "clang_getArraySize t = 4 \<and> T = ''i32'' \<longrightarrow> to_zig_type p t = (w, Inr ''[i32; 4]'')"
    using r by (simp add: show_nat_4)
  from r z f decimal_value_show_nat show_nat_digits
  show "to_zig_type p t = (w, Inr (''['' @ T @ ''; '' @ show_nat (nat (clang_getArraySize t)) @ '']''))
     \<and> decimal_value (show_nat (nat (clang_getArraySize t))) = nat (clang_getArraySize t)
     \<and> set (show_nat (nat (clang_getArraySize t))) \<subseteq> set ''0123456789''
     \<and> (clang_getArraySize t = 0 \<longrightarrow> to_zig_type p t = (w, Inr (''['' @ T @ ''; 0]'')))
     \<and> (clang_getArraySize t = 4 \<and> T = ''i32'' \<longrightarrow> to_zig_type p t = (w, Inr ''[i32; 4]''))"
    by blast
qed

theorem constant_array_witness:
  "to_zig_type zero_ParseH
     (constant_array_type (typedef_type ''int32_t'' (builtin_type CXType_Int False)) 4)
     = ([], Inr ''[i32; 4]'')
   \<and> to_zig_type zero_ParseH (constant_array_type (builtin_type CXType_Double False) 0)
     = ([], Inr ''[f64; 0]'')"
proof -
  have e1: "to_zig_type zero_ParseH (typedef_type ''int32_t'' (builtin_type CXType_Int False))
      = ([], Inr ''i32'')"
    by (simp add: to_zig_type_Typedef typedef_type_def prefixes_stripped_def strip_loop_unfold ok_def)
  have e2: "to_zig_type zero_ParseH (builtin_type CXType_Double False) = ([], Inr ''f64'')"
    by (subst to_zig_type.simps) (simp add: builtin_type_def ok_def)
  from e1 constant_array [of "constant_array_type (typedef_type ''int32_t'' (builtin_type CXType_Int False)) 4"
      zero_ParseH "[]" "''i32''"]
  have 1: "to_zig_type zero_ParseH
     (constant_array_type (typedef_type ''int32_t'' (builtin_type CXType_Int False)) 4)
     = ([], Inr ''[i32; 4]'')"
    by (simp add: constant_array_type_def show_nat_4)
  from e2 constant_array [of "constant_array_type (builtin_type CXType_Double False) 0"
      zero_ParseH "[]" "''f64''"]
  have 2: "to_zig_type zero_ParseH (constant_array_type (builtin_type CXType_Double False) 0)
     = ([], Inr ''[f64; 0]'')"
    by (simp add: constant_array_type_def show_nat_0)
  from 1 2 show ?thesis by blast
qed

section \<open>Compiler flags: properties\<close>

lemma split_spaces_not_Nil: "split_spaces s \<noteq> []"
  by (induction s) (auto split: list.splits)

lemma join_split_spaces: "join_spaces (split_spaces s) = s"
proof (induction s)
  case Nil
  show ?case by simp
next
  case (Cons c cs)
  obtain seg segs where sp: "split_spaces cs = seg # segs"
    using split_spaces_not_Nil [of cs] by (cases "split_spaces cs") auto
  show ?case
  proof (cases "c = CHR '' ''")
    case True
    with Cons sp show ?thesis by simp
  next
    case False
    with Cons sp show ?thesis by (cases segs) auto
  qed
qed

lemma split_spaces_no_space: "seg \<in> set (split_spaces s) \<Longrightarrow> CHR '' '' \<notin> set seg"
proof (induction s arbitrary: seg)
  case Nil
  then show ?case by simp
next
  case (Cons c cs)
  obtain x xs where sp: "split_spaces cs = x # xs"
    using split_spaces_not_Nil [of cs] by (cases "split_spaces cs") auto
  with Cons show ?case
    by (auto split: if_splits)
qed

lemma split_spaces_plain: "CHR '' '' \<notin> set a \<Longrightarrow> split_spaces a = [a]"
  by (induction a) auto

lemma split_spaces_at_space:
  "CHR '' '' \<notin> set a \<Longrightarrow> split_spaces (a @ CHR '' '' # b) = a # split_spaces b"
  by (induction a) auto

lemma strstr_space_None: "strstr_space s = None \<Longrightarrow> CHR '' '' \<notin> set s"
  by (induction s) (auto split: if_splits)

lemma strstr_space_Some:
  "strstr_space s = Some k \<Longrightarrow>
   CHR '' '' \<notin> set (take k s) \<and> s = take k s @ CHR '' '' # drop (k + 1) s"
proof (induction s arbitrary: k)
  case Nil
  then show ?case by simp
next
  case (Cons c cs)
  show ?case
  proof (cases "c = CHR '' ''")
    case True
    with Cons.prems show ?thesis by simp
  next
    case False
    with Cons.prems obtain j where j: "strstr_space cs = Some j" "k = Suc j"
      by auto
    from Cons.IH [OF j(1)] False j(2) show ?thesis by simp
  qed
qed

lemma kept_tokens_Cons:
  "segs \<noteq> [] \<Longrightarrow> kept_tokens (a # segs) = (if a \<noteq> [] then [a] else []) @ kept_tokens segs"
  by (simp add: kept_tokens_def)

lemma cflags_loop_tokens:
  "cflags_loop s argv = argv @ map Some (kept_tokens (split_spaces s))"
proof (induction s argv rule: cflags_loop.induct)
  case (1 start clang_argv)
  show ?case
  proof (cases "strstr_space start")
    case None
    then have "split_spaces start = [start]"
      by (simp add: strstr_space_None split_spaces_plain)
    with None show ?thesis
      by (subst cflags_loop.simps) (simp add: kept_tokens_def)
  next
    case (Some space)
    from strstr_space_Some [OF Some]
    have ns: "CHR '' '' \<notin> set (take space start)"
      and eq: "start = take space start @ CHR '' '' # drop (space + 1) start"
      by blast+
    have sp: "split_spaces start = take space start # split_spaces (drop (space + 1) start)"
      using split_spaces_at_space [OF ns, of "drop (space + 1) start"] eq by metis
    have t: "(take space start \<noteq> []) = (0 < space)"
      using eq by (cases space) auto
    from 1 [OF Some] Some sp t show ?thesis
      by (subst cflags_loop.simps) (simp add: kept_tokens_Cons split_spaces_not_Nil)
  qed
qed

lemma last_split_spaces:
  "last (split_spaces s) = rev (takeWhile (\<lambda>c. c \<noteq> CHR '' '') (rev s))"
proof (induction s)
  case Nil
  show ?case by simp
next
  case (Cons c cs)
  obtain x xs where sp: "split_spaces cs = x # xs"
    using split_spaces_not_Nil [of cs] by (cases "split_spaces cs") auto
  show ?case
  proof (cases "CHR '' '' \<in> set cs")
    case True
    then have "xs \<noteq> []"
      using sp split_spaces_no_space [of x cs] join_split_spaces [of cs]
      by (cases xs) auto
    with Cons sp True show ?thesis
      by (simp add: takeWhile_append1 split: if_splits)
  next
    case False
    then have tw: "takeWhile (\<lambda>c. c \<noteq> CHR '' '') (rev cs @ [c])
        = rev cs @ takeWhile (\<lambda>c. c \<noteq> CHR '' '') [c]"
      by (intro takeWhile_append2) auto
    from False have "split_spaces cs = [cs]"
      by (rule split_spaces_plain)
    with tw show ?thesis by simp
  qed
qed

text \<open>
  C4. The flag string is split at every space; the segments are appended to the
  argument list in order, an empty segment in front of a space left out, and the null
  sentinel after them. Two tokens with two spaces between them give exactly the two
  tokens: \<open>-I/usr/include  -DFOO\<close> yields \<open>-I/usr/include\<close>, \<open>-DFOO\<close>.
\<close>

theorem cflags_split:
  "append_cflags (Some s) argv = argv @ map Some (kept_tokens (split_spaces s)) @ [None]
   \<and> append_cflags None argv = argv @ [None]
   \<and> (a \<noteq> [] \<and> CHR '' '' \<notin> set a \<and> CHR '' '' \<notin> set b \<longrightarrow>
        append_cflags (Some (a @ ''  '' @ b)) argv = argv @ [Some a, Some b, None])
   \<and> append_cflags (Some ''-I/usr/include  -DFOO'') []
        = [Some ''-I/usr/include'', Some ''-DFOO'', None]"
proof -
  have g: "append_cflags (Some s) argv = argv @ map Some (kept_tokens (split_spaces s)) @ [None]" for s argv
    by (simp add: append_cflags_def cflags_loop_tokens)
  have n: "append_cflags None argv = argv @ [None]"
    by (simp add: append_cflags_def)
  have d: "append_cflags (Some (a @ ''  '' @ b)) argv = argv @ [Some a, Some b, None]"
    if "a \<noteq> []" and "CHR '' '' \<notin> set a" and "CHR '' '' \<notin> set b"
  proof -
    have "split_spaces (a @ ''  '' @ b) = a # split_spaces ([] @ CHR '' '' # b)"
      using that(2) split_spaces_at_space [of a "CHR '' '' # b"] by simp
    also have "\<dots> = a # [] # split_spaces b"
      by simp
    also have "\<dots> = [a, [], b]"
      using that(3) by (simp add: split_spaces_plain)
    finally show ?thesis
      using that(1) by (simp add: g kept_tokens_def)
  qed
  have e: "append_cflags (Some ''-I/usr/include  -DFOO'') []
        = [Some ''-I/usr/include'', Some ''-DFOO'', None]"
    by (simp add: g kept_tokens_def)
  from g n d e show ?thesis by blast
qed

theorem cflags_split_witness:
  "append_cflags (Some ''-O2  -g'') [Some ''clang''] = [Some ''clang'', Some ''-O2'', Some ''-g'', None]"
  using cflags_split [of "[]" "[Some ''clang'']" "''-O2''" "''-g''"]
  by simp

text \<open>
  C9. The segment after the last space is appended whether it is empty or not: only
  the segments in front of a space are left out when empty. So an empty flag string,
  and one that ends in a space, put an empty string in front of the sentinel.
\<close>

theorem cflags_final_segment:
  "append_cflags (Some s) argv =
     argv @ map Some (filter (\<lambda>t. t \<noteq> []) (butlast (split_spaces s)))
       @ [Some (rev (takeWhile (\<lambda>c. c \<noteq> CHR '' '') (rev s))), None]
   \<and> (s = [] \<or> last s = CHR '' '' \<longrightarrow>
        append_cflags (Some s) argv =
          argv @ map Some (filter (\<lambda>t. t \<noteq> []) (butlast (split_spaces s))) @ [Some [], None])
   \<and> append_cflags (Some []) argv = argv @ [Some [], None]
   \<and> append_cflags (Some ''-DFOO '') [] = [Some ''-DFOO'', Some [], None]"
proof -
  have g: "append_cflags (Some s) argv =
     argv @ map Some (filter (\<lambda>t. t \<noteq> []) (butlast (split_spaces s)))
       @ [Some (rev (takeWhile (\<lambda>c. c \<noteq> CHR '' '') (rev s))), None]" for s argv
    by (simp add: append_cflags_def cflags_loop_tokens kept_tokens_def last_split_spaces)
  have f: "rev (takeWhile (\<lambda>c. c \<noteq> CHR '' '') (rev s)) = []" if "s = [] \<or> last s = CHR '' ''"
  proof (cases "s = []")
    case True
    then show ?thesis by simp
  next
    case False
    with that have l: "last s = CHR '' ''" by simp
    from False have "s = butlast s @ [last s]" by simp
    then have r: "rev s = last s # rev (butlast s)"
      by (metis rev.simps(2) rev_rev_ident rev_swap)
    have "takeWhile (\<lambda>c. c \<noteq> CHR '' '') (last s # rev (butlast s)) = []"
      using l by simp
    then have "takeWhile (\<lambda>c. c \<noteq> CHR '' '') (rev s) = []"
      by (simp only: r)
    then show ?thesis by (simp only: rev.simps(1))
  qed
  have e: "append_cflags (Some []) argv = argv @ [Some [], None]"
    by (simp add: g)
  have x: "append_cflags (Some ''-DFOO '') [] = [Some ''-DFOO'', Some [], None]"
    by (simp add: g)
  have c: "s = [] \<or> last s = CHR '' '' \<longrightarrow>
        append_cflags (Some s) argv =
          argv @ map Some (filter (\<lambda>t. t \<noteq> []) (butlast (split_spaces s))) @ [Some [], None]"
  proof
    assume "s = [] \<or> last s = CHR '' ''"
    then have "rev (takeWhile (\<lambda>c. c \<noteq> CHR '' '') (rev s)) = []"
      by (rule f)
    with g [of s argv] show "append_cflags (Some s) argv =
          argv @ map Some (filter (\<lambda>t. t \<noteq> []) (butlast (split_spaces s))) @ [Some [], None]"
      by (simp only:)
  qed
  from g [of s argv] c e x show ?thesis by blast
qed

theorem cflags_final_segment_witness:
  "append_cflags (Some ''-g '') [Some ''clang''] = [Some ''clang'', Some ''-g'', Some [], None]"
  using cflags_final_segment [of "''-g ''" "[Some ''clang'']"]
  by simp

section \<open>The emitter: properties\<close>

lemma after_Inr: "after w (t, Inr x) = (w @ t, Inr x)"
  by (simp add: after_def)

lemma snd_after: "snd (after w m) = snd m"
  by (simp add: after_def)

lemma snd_bind_Inl:
  "snd (bind m k) = Inl e \<longleftrightarrow> (snd m = Inl e \<or> (\<exists>x. snd m = Inr x \<and> snd (k x) = Inl e))"
  by (cases "snd m") (auto simp: bind_def after_def)

text \<open>
  With every name set the emitter writes the block and comes to its end.
\<close>

lemma emit_args_named:
  "list_all (\<lambda>a. arg_name a \<noteq> None) (drop i (args fn)) \<Longrightarrow>
   emit_args fn i = (comma_separated (map spec_arg (drop i (args fn))), Inr ())"
proof (induction fn i rule: emit_args.induct)
  case (1 fn arg_i)
  show ?case
  proof (cases "arg_i < arg_count fn")
    case False
    then show ?thesis
      by (subst emit_args.simps) (simp add: arg_count_def ok_def)
  next
    case True
    then have d: "drop arg_i (args fn) = args fn ! arg_i # drop (Suc arg_i) (args fn)"
      by (simp add: arg_count_def Cons_nth_drop_Suc)
    with "1.prems" obtain name where nm: "arg_name (args fn ! arg_i) = Some name"
      and rest: "list_all (\<lambda>a. arg_name a \<noteq> None) (drop (arg_i + 1) (args fn))"
      by auto
    from "1.IH" [OF True refl rest]
    have ih: "emit_args fn (arg_i + 1)
        = (comma_separated (map spec_arg (drop (arg_i + 1) (args fn))), Inr ())"
      by simp
    have u: "emit_args fn arg_i =
        after (name @ '': '' @ arg_type (args fn ! arg_i))
          (after (if arg_i + 1 < arg_count fn then '', '' else [])
             (emit_args fn (arg_i + 1)))"
      using True nm by (subst emit_args.simps) (simp add: Let_def buf_ptr_def bind_ok)
    have sa: "spec_arg (args fn ! arg_i) = name @ '': '' @ arg_type (args fn ! arg_i)"
      using nm by (simp add: spec_arg_def)
    show ?thesis
    proof (cases "arg_i + 1 < arg_count fn")
      case True
      then obtain y ys where "drop (Suc arg_i) (args fn) = y # ys"
        by (cases "drop (Suc arg_i) (args fn)") (auto simp: arg_count_def)
      with True d ih show ?thesis
        by (simp add: u after_Inr sa)
    next
      case False
      then have "drop (Suc arg_i) (args fn) = []"
        by (simp add: arg_count_def)
      with False d ih show ?thesis
        by (simp add: u after_Inr sa)
    qed
  qed
qed

lemma emit_fn_named:
  assumes "cur_indent p = 4" and "all_named fn"
  shows "emit_fn p fn = (spec_fn_line fn, Inr ())"
proof -
  from assms(1) have "print_indent p = ''    ''"
    by (simp add: print_indent_def numeral_eq_Suc)
  moreover from assms(2) have "emit_args fn 0 = (comma_separated (map spec_arg (args fn)), Inr ())"
    using emit_args_named [of 0 fn] by (simp add: all_named_def)
  ultimately show ?thesis
    by (simp add: emit_fn_def spec_fn_line_def bind_Inr after_def ok_def)
qed

lemma emit_fn_named_end: "all_named fn \<Longrightarrow> snd (emit_fn p fn) = Inr ()"
proof -
  assume "all_named fn"
  then have "emit_args fn 0 = (comma_separated (map spec_arg (args fn)), Inr ())"
    using emit_args_named [of 0 fn] by (simp add: all_named_def)
  then show ?thesis
    by (simp add: emit_fn_def snd_after bind_Inr ok_def)
qed

lemma emit_fns_named:
  "cur_indent p = 4 \<Longrightarrow> list_all all_named (drop i (fn_list p)) \<Longrightarrow>
   emit_fns p i = (concat (map spec_fn_line (drop i (fn_list p))), Inr ())"
proof (induction p i rule: emit_fns.induct)
  case (1 p fn_i)
  show ?case
  proof (cases "fn_i < length (fn_list p)")
    case False
    then show ?thesis
      by (subst emit_fns.simps) (simp add: ok_def)
  next
    case True
    then have d: "drop fn_i (fn_list p) = fn_list p ! fn_i # drop (Suc fn_i) (fn_list p)"
      by (simp add: Cons_nth_drop_Suc)
    with "1.prems" have n: "all_named (fn_list p ! fn_i)"
      and rest: "list_all all_named (drop (fn_i + 1) (fn_list p))"
      by auto
    from "1.IH" [OF True refl "1.prems"(1) rest]
    have ih: "emit_fns p (fn_i + 1) = (concat (map spec_fn_line (drop (fn_i + 1) (fn_list p))), Inr ())"
      by simp
    from True d ih emit_fn_named [OF "1.prems"(1) n] show ?thesis
      by (subst emit_fns.simps) (simp add: Let_def bind_Inr)
  qed
qed

lemma emit_named:
  assumes "fn_list p \<noteq> []" and "cur_indent p = 0" and "list_all all_named (fn_list p)"
  shows "emit p = (spec_extern_block (fn_list p), Inr ())"
proof -
  from assms(2,3)
  have "emit_fns (p\<lparr>cur_indent := cur_indent p + indent_size\<rparr>) 0
      = (concat (map spec_fn_line (fn_list p)), Inr ())"
    using emit_fns_named [of "p\<lparr>cur_indent := cur_indent p + indent_size\<rparr>" 0]
    by (simp add: indent_size_def)
  with assms(1) show ?thesis
    by (simp add: emit_def spec_extern_block_def bind_Inr after_def ok_def Let_def)
qed

lemma emit_empty: "fn_list p = [] \<Longrightarrow> emit p = ([], Inr ())"
  by (simp add: emit_def ok_def)

text \<open>
  With a name that was never set the run ends in \<open>buf_ptr\<close>.
\<close>

lemma emit_args_unset:
  "i \<le> j \<Longrightarrow> j < arg_count fn \<Longrightarrow> arg_name (args fn ! j) = None \<Longrightarrow>
   snd (emit_args fn i) = Inl UninitializedBuf"
proof (induction fn i rule: emit_args.induct)
  case (1 fn arg_i)
  from "1.prems" have lt: "arg_i < arg_count fn" by simp
  show ?case
  proof (cases "arg_name (args fn ! arg_i)")
    case None
    with lt show ?thesis
      by (subst emit_args.simps) (simp add: Let_def buf_ptr_def bind_Inl)
  next
    case (Some name)
    with "1.prems" have "arg_i \<noteq> j" by auto
    with "1.prems" have le: "arg_i + 1 \<le> j" by simp
    from "1.IH" [OF lt refl le "1.prems"(2,3)]
    have "snd (emit_args fn (arg_i + 1)) = Inl UninitializedBuf" by simp
    with lt Some show ?thesis
      by (subst emit_args.simps) (simp add: Let_def buf_ptr_def bind_ok snd_after)
  qed
qed

lemma emit_fn_unset: "\<not> all_named fn \<Longrightarrow> snd (emit_fn p fn) = Inl UninitializedBuf"
proof -
  assume "\<not> all_named fn"
  then obtain j where "j < arg_count fn" and "arg_name (args fn ! j) = None"
    by (auto simp: all_named_def list_all_length arg_count_def)
  then have "snd (emit_args fn 0) = Inl UninitializedBuf"
    using emit_args_unset [of 0 j fn] by simp
  then show ?thesis
    by (simp add: emit_fn_def snd_after snd_bind_Inl)
qed

lemma emit_fns_unset:
  "i \<le> j \<Longrightarrow> j < length (fn_list p) \<Longrightarrow> \<not> all_named (fn_list p ! j) \<Longrightarrow>
   snd (emit_fns p i) = Inl UninitializedBuf"
proof (induction p i rule: emit_fns.induct)
  case (1 p fn_i)
  from "1.prems" have lt: "fn_i < length (fn_list p)" by simp
  show ?case
  proof (cases "all_named (fn_list p ! fn_i)")
    case False
    with lt emit_fn_unset [of "fn_list p ! fn_i" p] show ?thesis
      by (subst emit_fns.simps) (simp add: Let_def snd_bind_Inl)
  next
    case True
    with "1.prems" have "fn_i \<noteq> j" by auto
    with "1.prems" have le: "fn_i + 1 \<le> j" by simp
    from "1.IH" [OF lt refl le "1.prems"(2,3)]
    have r: "snd (emit_fns p (fn_i + 1)) = Inl UninitializedBuf" by simp
    from True have "snd (emit_fn p (fn_list p ! fn_i)) = Inr ()"
      by (rule emit_fn_named_end)
    with lt r show ?thesis
      by (subst emit_fns.simps) (simp add: Let_def snd_bind_Inl)
  qed
qed

lemma emit_unset:
  "\<not> list_all all_named (fn_list p) \<Longrightarrow> snd (emit p) = Inl UninitializedBuf"
proof -
  assume "\<not> list_all all_named (fn_list p)"
  then obtain j where j: "j < length (fn_list p)" "\<not> all_named (fn_list p ! j)"
    by (auto simp: list_all_length)
  then have "snd (emit_fns (p\<lparr>cur_indent := cur_indent p + indent_size\<rparr>) 0) = Inl UninitializedBuf"
    using emit_fns_unset [of 0 j "p\<lparr>cur_indent := cur_indent p + indent_size\<rparr>"] by simp
  with j(1) show ?thesis
    by (auto simp: emit_def snd_after snd_bind_Inl Let_def)
qed

section \<open>The declaration collector: properties\<close>

lemma after_Nil: "after [] m = m"
  by (simp add: after_def)

lemma after_ok: "after w (ok x) = (w, Inr x)"
  by (simp add: after_def ok_def)

lemma fn_visitor_not_exported:
  "clang_getCursorKind c = CXCursor_FunctionDecl \<Longrightarrow>
   clang_Cursor_getStorageClass c \<in> {CX_SC_Static, CX_SC_PrivateExtern, CX_SC_OpenCLWorkGroupLocal, CX_SC_Register} \<Longrightarrow>
   fn_visitor c p = ([], Inr (at_cursor c p, CXChildVisit_Continue))"
  by (auto simp: fn_visitor_def is_storage_class_export_def Let_def bind_Inr at_cursor_def
      clang_getRangeStart_def ok_def)

lemma fn_visitor_invalid_storage:
  "clang_getCursorKind c = CXCursor_FunctionDecl \<Longrightarrow>
   clang_Cursor_getStorageClass c = CX_SC_Invalid \<Longrightarrow>
   fn_visitor c p = ([], Inl Unreachable)"
  by (simp add: fn_visitor_def is_storage_class_export_def Let_def zig_unreachable_def bind_Inl)

lemma fn_visitor_variadic:
  "clang_getCursorKind c = CXCursor_FunctionDecl \<Longrightarrow>
   clang_Cursor_getStorageClass c \<in> {CX_SC_None, CX_SC_Extern, CX_SC_Auto} \<Longrightarrow>
   clang_isFunctionTypeVariadic (clang_getCursorType c) \<Longrightarrow>
   fn_visitor c p =
     (print_location (at_cursor c p) @ ''warning: skipping variadic function, not yet supported'' @ newline,
      Inr (at_cursor c p, CXChildVisit_Continue))"
  by (auto simp: fn_visitor_def is_storage_class_export_def Let_def bind_Inr at_cursor_def
      clang_getRangeStart_def after_def ok_def)

lemma fn_visitor_calling_conv:
  "clang_getCursorKind c = CXCursor_FunctionDecl \<Longrightarrow>
   clang_Cursor_getStorageClass c \<in> {CX_SC_None, CX_SC_Extern, CX_SC_Auto} \<Longrightarrow>
   \<not> clang_isFunctionTypeVariadic (clang_getCursorType c) \<Longrightarrow>
   clang_getFunctionTypeCallingConv (clang_getCursorType c) \<noteq> CXCallingConv_C \<Longrightarrow>
   fn_visitor c p =
     (print_location (at_cursor c p)
        @ ''warning: skipping non c calling convention function, not yet supported'' @ newline,
      Inr (at_cursor c p, CXChildVisit_Continue))"
  by (auto simp: fn_visitor_def is_storage_class_export_def Let_def bind_Inr at_cursor_def
      clang_getRangeStart_def after_def ok_def)

lemma fn_visitor_parm:
  "clang_getCursorKind c = CXCursor_ParmDecl \<Longrightarrow>
   fn_visitor c p =
     (if cur_fn p \<noteq> None \<and> arg_index p < cur_arg_count p
      then ([], Inr (on_cur_fn (set_arg_name (arg_index p) (clang_getCursorSpelling c)) (at_cursor c p)
                       \<lparr>arg_index := arg_index p + 1\<rparr>, CXChildVisit_Continue))
      else ([], Inl AssertionFailed))"
  by (simp add: fn_visitor_def Let_def assert_def bind_Inr bind_Inl at_cursor_def
      clang_getRangeStart_def ok_def cur_arg_count_def on_cur_fn_def)

lemma fn_visitor_exported:
  "is_exported_fn c \<Longrightarrow>
   fn_visitor c p =
     (let q = (end_fn (at_cursor c p))\<lparr>cur_fn := Some zero_Fn\<rparr> in
      bind (to_zig_type q (clang_getResultType (clang_getCursorType c))) (\<lambda>rt.
        bind (arg_types_loop (clang_getCursorType c) 0
               (q\<lparr>cur_fn := Some \<lparr>fn_name = clang_getCursorSpelling c, return_type = rt,
                     args = replicate (declared_arity c) zero_Arg\<rparr>\<rparr>))
          (\<lambda>p. ok (p\<lparr>arg_index := 0\<rparr>, CXChildVisit_Recurse))))"
proof -
  assume e: "is_exported_fn c"
  have n: "cur_fn (end_fn q) = None" for q
    by (cases "cur_fn q") (simp_all add: end_fn_def)
  from e show ?thesis
    by (auto simp: is_exported_fn_def fn_visitor_def is_storage_class_export_def Let_def bind_ok
        at_cursor_def clang_getRangeStart_def begin_fn_def assert_def n on_cur_fn_def zero_Fn_def
        declared_arity_def)
qed

lemma fn_visitor_other_kind:
  "clang_getCursorKind c \<noteq> CXCursor_FunctionDecl \<Longrightarrow>
   clang_getCursorKind c \<noteq> CXCursor_ParmDecl \<Longrightarrow>
   \<exists>r. fn_visitor c p = ([], Inr (at_cursor c p, r)) \<and> r \<noteq> CXChildVisit_Break"
  by (cases "clang_getCursorKind c")
    (simp_all add: fn_visitor_def Let_def at_cursor_def clang_getRangeStart_def ok_def)

lemma show_nat_digit: "n < 10 \<Longrightarrow> show_nat n = [digit_char n]"
  by (subst show_nat.simps) simp

lemma visit_children_Continue:
  "fn_visitor c p = (w, Inr (p', CXChildVisit_Continue)) \<Longrightarrow>
   clang_visitChildren (CXNode c children # siblings) p = after w (clang_visitChildren siblings p')"
  by (simp add: bind_def)

text \<open>
  C3. At a function declaration whose storage class is other than none, extern and
  auto, the visitor writes no diagnostic, leaves the list of functions and the current
  function as they are and answers \<open>CXChildVisit_Continue\<close>. Otherwise a variadic
  function type, or else a calling convention other than C, makes it write the
  location line and one warning line and again change nothing and answer
  \<open>CXChildVisit_Continue\<close>. After such an answer the traversal does not visit the
  children of the declaration and goes on with its siblings. The storage class is one
  a function declaration has: \<open>CX_SC_Invalid\<close> is what libclang answers for a cursor
  that is no function or variable declaration, and the program marks it unreachable.
\<close>

theorem function_declaration_filter:
  "clang_getCursorKind c = CXCursor_FunctionDecl
     \<and> clang_Cursor_getStorageClass c \<noteq> CX_SC_Invalid \<longrightarrow>
     (clang_Cursor_getStorageClass c \<notin> {CX_SC_None, CX_SC_Extern, CX_SC_Auto} \<longrightarrow>
        fn_visitor c p = ([], Inr (at_cursor c p, CXChildVisit_Continue)))
     \<and> (clang_Cursor_getStorageClass c \<in> {CX_SC_None, CX_SC_Extern, CX_SC_Auto}
          \<and> clang_isFunctionTypeVariadic (clang_getCursorType c) \<longrightarrow>
        fn_visitor c p =
          (print_location (at_cursor c p)
             @ ''warning: skipping variadic function, not yet supported'' @ newline,
           Inr (at_cursor c p, CXChildVisit_Continue)))
     \<and> (clang_Cursor_getStorageClass c \<in> {CX_SC_None, CX_SC_Extern, CX_SC_Auto}
          \<and> \<not> clang_isFunctionTypeVariadic (clang_getCursorType c)
          \<and> clang_getFunctionTypeCallingConv (clang_getCursorType c) \<noteq> CXCallingConv_C \<longrightarrow>
        fn_visitor c p =
          (print_location (at_cursor c p)
             @ ''warning: skipping non c calling convention function, not yet supported'' @ newline,
           Inr (at_cursor c p, CXChildVisit_Continue)))
     \<and> fn_list (at_cursor c p) = fn_list p
     \<and> cur_fn (at_cursor c p) = cur_fn p
     \<and> arg_index (at_cursor c p) = arg_index p
     \<and> (\<forall>w p'. fn_visitor c p = (w, Inr (p', CXChildVisit_Continue)) \<longrightarrow>
          clang_visitChildren (CXNode c children # siblings) p
            = after w (clang_visitChildren siblings p'))"
proof
  assume h: "clang_getCursorKind c = CXCursor_FunctionDecl
     \<and> clang_Cursor_getStorageClass c \<noteq> CX_SC_Invalid"
  then have k: "clang_getCursorKind c = CXCursor_FunctionDecl" by simp
  from h have n: "clang_Cursor_getStorageClass c \<notin> {CX_SC_None, CX_SC_Extern, CX_SC_Auto} \<longrightarrow>
      clang_Cursor_getStorageClass c
        \<in> {CX_SC_Static, CX_SC_PrivateExtern, CX_SC_OpenCLWorkGroupLocal, CX_SC_Register}"
    by (cases "clang_Cursor_getStorageClass c") simp_all
  have f: "fn_list (at_cursor c p) = fn_list p \<and> cur_fn (at_cursor c p) = cur_fn p
     \<and> arg_index (at_cursor c p) = arg_index p"
    by (simp add: at_cursor_def)
  from k n f fn_visitor_not_exported [of c p] fn_visitor_variadic [of c p]
    fn_visitor_calling_conv [of c p]
    visit_children_Continue [of c p _ _ children siblings]
  show "(clang_Cursor_getStorageClass c \<notin> {CX_SC_None, CX_SC_Extern, CX_SC_Auto} \<longrightarrow>
        fn_visitor c p = ([], Inr (at_cursor c p, CXChildVisit_Continue)))
     \<and> (clang_Cursor_getStorageClass c \<in> {CX_SC_None, CX_SC_Extern, CX_SC_Auto}
          \<and> clang_isFunctionTypeVariadic (clang_getCursorType c) \<longrightarrow>
        fn_visitor c p =
          (print_location (at_cursor c p)
             @ ''warning: skipping variadic function, not yet supported'' @ newline,
           Inr (at_cursor c p, CXChildVisit_Continue)))
     \<and> (clang_Cursor_getStorageClass c \<in> {CX_SC_None, CX_SC_Extern, CX_SC_Auto}
          \<and> \<not> clang_isFunctionTypeVariadic (clang_getCursorType c)
          \<and> clang_getFunctionTypeCallingConv (clang_getCursorType c) \<noteq> CXCallingConv_C \<longrightarrow>
        fn_visitor c p =
          (print_location (at_cursor c p)
             @ ''warning: skipping non c calling convention function, not yet supported'' @ newline,
           Inr (at_cursor c p, CXChildVisit_Continue)))
     \<and> fn_list (at_cursor c p) = fn_list p
     \<and> cur_fn (at_cursor c p) = cur_fn p
     \<and> arg_index (at_cursor c p) = arg_index p
     \<and> (\<forall>w p'. fn_visitor c p = (w, Inr (p', CXChildVisit_Continue)) \<longrightarrow>
          clang_visitChildren (CXNode c children # siblings) p
            = after w (clang_visitChildren siblings p'))"
    by blast
qed

theorem function_declaration_filter_witness:
  "fn_visitor (function_decl ''helper'' CX_SC_Static True CXCallingConv_C InvalidType []) zero_ParseH
     = ([], Inr (at_cursor (function_decl ''helper'' CX_SC_Static True CXCallingConv_C InvalidType [])
                   zero_ParseH, CXChildVisit_Continue))
   \<and> fn_visitor (function_decl ''printf'' CX_SC_Extern True CXCallingConv_C InvalidType []) zero_ParseH
     = (''a.h line 3, column 1'' @ newline
          @ ''warning: skipping variadic function, not yet supported'' @ newline,
        Inr (at_cursor (function_decl ''printf'' CX_SC_Extern True CXCallingConv_C InvalidType [])
               zero_ParseH, CXChildVisit_Continue))
   \<and> fn_visitor (function_decl ''WinMain'' CX_SC_None False (CXCallingConv_Other 2) InvalidType [])
        zero_ParseH
     = (''a.h line 3, column 1'' @ newline
          @ ''warning: skipping non c calling convention function, not yet supported'' @ newline,
        Inr (at_cursor (function_decl ''WinMain'' CX_SC_None False (CXCallingConv_Other 2) InvalidType [])
               zero_ParseH, CXChildVisit_Continue))"
proof -
  have l: "print_location (at_cursor (function_decl nm sc v cc r ps) zero_ParseH)
      = ''a.h line 3, column 1'' @ newline" for nm sc v cc r ps
    by (simp add: print_location_def at_cursor_def function_decl_def example_extent_def
        show_nat_digit digit_char_def)
  have k: "clang_getCursorKind (function_decl nm sc v cc r ps) = CXCursor_FunctionDecl"
    and s: "clang_Cursor_getStorageClass (function_decl nm sc v cc r ps) = sc"
    and v: "clang_isFunctionTypeVariadic (clang_getCursorType (function_decl nm sc v cc r ps)) = v"
    and c: "clang_getFunctionTypeCallingConv (clang_getCursorType (function_decl nm sc v cc r ps)) = cc"
    for nm sc v cc r ps
    by (simp_all add: function_decl_def)
  from function_declaration_filter
    [of "function_decl ''helper'' CX_SC_Static True CXCallingConv_C InvalidType []" zero_ParseH]
  have 1: "fn_visitor (function_decl ''helper'' CX_SC_Static True CXCallingConv_C InvalidType []) zero_ParseH
     = ([], Inr (at_cursor (function_decl ''helper'' CX_SC_Static True CXCallingConv_C InvalidType [])
                   zero_ParseH, CXChildVisit_Continue))"
    by (simp add: k s)
  from function_declaration_filter
    [of "function_decl ''printf'' CX_SC_Extern True CXCallingConv_C InvalidType []" zero_ParseH]
  have 2: "fn_visitor (function_decl ''printf'' CX_SC_Extern True CXCallingConv_C InvalidType []) zero_ParseH
     = (''a.h line 3, column 1'' @ newline
          @ ''warning: skipping variadic function, not yet supported'' @ newline,
        Inr (at_cursor (function_decl ''printf'' CX_SC_Extern True CXCallingConv_C InvalidType [])
               zero_ParseH, CXChildVisit_Continue))"
    by (simp add: k s v l)
  from function_declaration_filter
    [of "function_decl ''WinMain'' CX_SC_None False (CXCallingConv_Other 2) InvalidType []" zero_ParseH]
  have 3: "fn_visitor (function_decl ''WinMain'' CX_SC_None False (CXCallingConv_Other 2) InvalidType [])
        zero_ParseH
     = (''a.h line 3, column 1'' @ newline
          @ ''warning: skipping non c calling convention function, not yet supported'' @ newline,
        Inr (at_cursor (function_decl ''WinMain'' CX_SC_None False (CXCallingConv_Other 2) InvalidType [])
               zero_ParseH, CXChildVisit_Continue))"
    by (simp add: k s v c l)
  from 1 2 3 show ?thesis by blast
qed

text \<open>
  C1. For the functions of the example, whose parameters all have a declaration, the
  run writes the block the emitter is to write: \<open>extern {\<close>, one line of four
  spaces, \<open>fn\<close>, name, arguments and return type for each function, \<open>}\<close>. For the
  header \<open>typedef int F(int); F f;\<close> it does not. The collector finishes the
  function \<open>f\<close> with one argument of type \<open>c_int\<close> whose name was never set, and the
  emitter, having written \<open>extern {\<close> and \<open>    fn f(\<close>, ends the run in
  \<open>buf_ptr\<close> on that name: no line for \<open>f\<close> and no closing line are written.
\<close>

theorem emitter_unset_name:
  "translate example_tu =
     \<lparr>err_text = [],
      out_text = ''extern {'' @ newline
                  @ ''    fn add(a: i32, b: i32) -> i32;'' @ newline
                  @ ''    fn log(msg: *const u8);'' @ newline
                  @ ''}'' @ newline,
      failure = None\<rparr>
   \<and> clang_visitChildren (node_children typedef_fn_tu) zero_ParseH =
       ([], Inr (\<lparr>fn_list = [],
                   cur_fn = Some \<lparr>fn_name = ''f'', return_type = ''c_int'',
                                   args = [\<lparr>arg_name = None, arg_type = ''c_int''\<rparr>]\<rparr>,
                   arg_index = 0, cur_indent = 0, src_range = example_extent,
                   location = range_start example_extent\<rparr>, False))
   \<and> emit (zero_ParseH\<lparr>fn_list := [\<lparr>fn_name = ''f'', return_type = ''c_int'',
                                           args = [\<lparr>arg_name = None, arg_type = ''c_int''\<rparr>]\<rparr>]\<rparr>)
       = (''extern {'' @ newline @ ''    fn f('', Inl UninitializedBuf)
   \<and> translate typedef_fn_tu =
       \<lparr>err_text = [], out_text = ''extern {'' @ newline @ ''    fn f('',
        failure = Some UninitializedBuf\<rparr>"
  by code_simp

text \<open>
  C5. The assertions of the parameter branch do fail on declarations of valid C, and the
  names accepted for a function need not be as many as its parameters. For the
  header \<open>void (*handler)(int sig);\<close> the traversal goes into the variable declaration
  and reaches the parameter declaration \<open>sig\<close> with no current function: the first
  assertion fails. After the declaration of \<open>log\<close> the same parameter declaration
  comes when \<open>log\<close> has its one name: the second assertion fails. For the header
  \<open>typedef int F(int); F f;\<close> the function \<open>f\<close> has one parameter and no name is
  accepted for it; followed by the declaration of \<open>handler\<close>, the name \<open>sig\<close> is
  accepted as the name of the parameter of \<open>f\<close>.
\<close>

theorem parameter_assertions_fail:
  "fn_visitor (parm_decl ''sig'') (at_cursor (var_decl ''handler'') zero_ParseH)
     = ([], Inl AssertionFailed)
   \<and> translate handler_tu = \<lparr>err_text = [], out_text = [], failure = Some AssertionFailed\<rparr>
   \<and> translate log_handler_tu = \<lparr>err_text = [], out_text = [], failure = Some AssertionFailed\<rparr>
   \<and> clang_visitChildren (node_children typedef_fn_tu) zero_ParseH =
       ([], Inr (\<lparr>fn_list = [],
                   cur_fn = Some \<lparr>fn_name = ''f'', return_type = ''c_int'',
                                   args = [\<lparr>arg_name = None, arg_type = ''c_int''\<rparr>]\<rparr>,
                   arg_index = 0, cur_indent = 0, src_range = example_extent,
                   location = range_start example_extent\<rparr>, False))
   \<and> translate typedef_fn_handler_tu =
       \<lparr>err_text = [],
        out_text = ''extern {'' @ newline @ ''    fn f(sig: c_int) -> c_int;'' @ newline
                    @ ''}'' @ newline,
        failure = None\<rparr>"
  by code_simp

end
